theory Spec2Isabelle
  imports Complex_Main "HOL-Library.Word" "HOL-Library.State_Monad"
begin

section \<open>Data model\<close>

text \<open>
  The forensic core of \<^verbatim>\<open>main.py\<close> works on a decoded image: an array of H rows of W
  pixels, each pixel three 8-bit channels in the order blue, green, red. Arrays are
  lists of rows. Python floats and the float32 and float64 arrays of numpy are modelled
  as real numbers, with one extra value for numpy's \<^verbatim>\<open>nan\<close>, which the arithmetic
  propagates as numpy does; the rounding of the floating-point operations is not
  modelled.
\<close>

type_synonym pixel = "8 word \<times> 8 word \<times> 8 word"
type_synonym image = "pixel list list"

datatype npfloat = Num real | NaN

text \<open>\<^verbatim>\<open>a.shape\<close> of a two-dimensional array.\<close>

definition shape :: "'a list list \<Rightarrow> nat \<times> nat" where
  "shape a = (length a, if a = [] then 0 else length (hd a))"

fun fl_add :: "npfloat \<Rightarrow> npfloat \<Rightarrow> npfloat" where
  "fl_add (Num a) (Num b) = Num (a + b)"
| "fl_add _ _ = NaN"

fun fl_mul :: "npfloat \<Rightarrow> npfloat \<Rightarrow> npfloat" where
  "fl_mul (Num a) (Num b) = Num (a * b)"
| "fl_mul _ _ = NaN"

fun fl_map :: "(real \<Rightarrow> real) \<Rightarrow> npfloat \<Rightarrow> npfloat" where
  "fl_map f (Num a) = Num (f a)"
| "fl_map f NaN = NaN"

text \<open>\<^verbatim>\<open>np.sum\<close> of an array of floats, added up from 0.\<close>

definition fl_sum :: "npfloat list \<Rightarrow> npfloat" where
  "fl_sum xs = foldr fl_add xs (Num 0)"

text \<open>
  \<^verbatim>\<open>np.clip(x, lo, hi)\<close> is \<^verbatim>\<open>minimum(maximum(x, lo), hi)\<close>; a \<^verbatim>\<open>nan\<close> argument
  comes out as \<^verbatim>\<open>nan\<close>.
\<close>

fun np_clip :: "npfloat \<Rightarrow> real \<Rightarrow> real \<Rightarrow> npfloat" where
  "np_clip (Num x) lo hi = Num (min (max x lo) hi)"
| "np_clip NaN lo hi = NaN"

text \<open>
  \<^verbatim>\<open>np.mean\<close>, \<^verbatim>\<open>np.var\<close> and \<^verbatim>\<open>np.std\<close> (population variance, \<^verbatim>\<open>ddof = 0\<close>) of a
  flattened array. The program only calls them on arrays with at least one element.
\<close>

definition np_mean :: "real list \<Rightarrow> real" where
  "np_mean xs = sum_list xs / real (length xs)"

definition np_var :: "real list \<Rightarrow> real" where
  "np_var xs = np_mean (map (\<lambda>x. (x - np_mean xs)\<^sup>2) xs)"

definition np_std :: "real list \<Rightarrow> real" where
  "np_std xs = sqrt (np_var xs)"

text \<open>Python's \<^verbatim>\<open>range(start, stop, step)\<close> for a positive step.\<close>

definition py_range :: "int \<Rightarrow> int \<Rightarrow> int \<Rightarrow> int list" where
  "py_range start stop step =
     map (\<lambda>k. start + int k * step) [0 ..< nat ((stop - start + step - 1) div step)]"

subsection \<open>The library calls\<close>

text \<open>
  The values that the calls into OpenCV and numpy compute are parameters: the image
  that \<^verbatim>\<open>cv2.imread\<close> decodes from a path, or none; the value at row y and column x of
  the area-resampled image, of the two-dimensional Fourier transform, of its shift, and
  of the image decoded from the JPEG encoding at quality 85; and the Laplacian. The
  shapes of the arrays they return are the documented ones: 256 by 256 for
  \<^verbatim>\<open>cv2.resize(gray, (256, 256))\<close>, the shape of the argument for \<^verbatim>\<open>np.fft.fft2\<close>,
  \<^verbatim>\<open>np.fft.fftshift\<close> and the JPEG round trip.
\<close>

record cvlib =
  imread :: "string \<Rightarrow> image option"
  resize_area :: "8 word list list \<Rightarrow> nat \<Rightarrow> nat \<Rightarrow> 8 word"
  fft2 :: "8 word list list \<Rightarrow> nat \<Rightarrow> nat \<Rightarrow> complex"
  fftshift :: "complex list list \<Rightarrow> nat \<Rightarrow> nat \<Rightarrow> complex"
  Laplacian :: "8 word list list \<Rightarrow> real list list"
  jpeg_pixel :: "image \<Rightarrow> nat \<Rightarrow> nat \<Rightarrow> pixel"

text \<open>The array of h rows and w columns with the value f y x at row y and column x.\<close>

definition tabulate2 :: "nat \<Rightarrow> nat \<Rightarrow> (nat \<Rightarrow> nat \<Rightarrow> 'a) \<Rightarrow> 'a list list" where
  "tabulate2 h w f = map (\<lambda>y. map (\<lambda>x. f y x) [0 ..< w]) [0 ..< h]"

definition cv2_resize :: "cvlib \<Rightarrow> 8 word list list \<Rightarrow> 8 word list list" where
  "cv2_resize L gray = tabulate2 256 256 (resize_area L gray)"

definition np_fft2 :: "cvlib \<Rightarrow> 8 word list list \<Rightarrow> complex list list" where
  "np_fft2 L a = (let (h, w) = shape a in tabulate2 h w (fft2 L a))"

definition np_fftshift :: "cvlib \<Rightarrow> complex list list \<Rightarrow> complex list list" where
  "np_fftshift L f = (let (h, w) = shape f in tabulate2 h w (fftshift L f))"

text \<open>
  The errors that the program raises: the \<^verbatim>\<open>ValueError\<close> of line 139, and the
  \<^verbatim>\<open>cv2.error\<close> of the JPEG round trip of lines 99 and 100. The JPEG encoder refuses
  an image with more than 65500 rows or columns; line 99 drops the flag that
  \<^verbatim>\<open>cv2.imencode\<close> returns, and \<^verbatim>\<open>cv2.imdecode\<close> raises on the buffer that was not
  written (in the versions of OpenCV in which \<^verbatim>\<open>imencode\<close> checks the flag itself,
  line 99 raises). An image that the encoder accepts decodes to an image of the same
  shape.
\<close>

datatype error = ValueError string | Cv2Error

definition jpeg_roundtrip :: "cvlib \<Rightarrow> image \<Rightarrow> error + image" where
  "jpeg_roundtrip L img =
     (let (h, w) = shape img
      in if h \<le> 65500 \<and> w \<le> 65500 then Inr (tabulate2 h w (jpeg_pixel L img))
         else Inl Cv2Error)"

text \<open>
  \<^verbatim>\<open>cv2.cvtColor(image, cv2.COLOR_BGR2GRAY)\<close> on 8-bit pixels: the luma
  0.114 B + 0.587 G + 0.299 R in OpenCV's fixed point of 15 fractional bits, rounded to
  the nearest level, \<^verbatim>\<open>(3735 B + 19235 G + 9798 R + 16384) >> 15\<close>. The coefficients add
  up to 1, so a grey pixel (v, v, v) has luma v.
\<close>

definition gray_of_pixel :: "pixel \<Rightarrow> 8 word" where
  "gray_of_pixel p = (case p of (b, g, r) \<Rightarrow>
     of_nat ((3735 * unat b + 19235 * unat g + 9798 * unat r + 16384) div 32768))"

definition cvtColor_BGR2GRAY :: "image \<Rightarrow> 8 word list list" where
  "cvtColor_BGR2GRAY img = map (map gray_of_pixel) img"

text \<open>\<^verbatim>\<open>cv2.cvtColor(image, cv2.COLOR_BGR2RGB)\<close> swaps the first and third channel.\<close>

definition cvtColor_BGR2RGB :: "image \<Rightarrow> image" where
  "cvtColor_BGR2RGB img = map (map (\<lambda>(b, g, r). (r, g, b))) img"

text \<open>\<^verbatim>\<open>.astype(np.float32)\<close> of an 8-bit array and \<^verbatim>\<open>.astype(np.uint8)\<close> of a float
  array (truncation towards zero, then wrap-around).\<close>

definition astype_float :: "8 word list list \<Rightarrow> real list list" where
  "astype_float a = map (map (\<lambda>v. real (unat v))) a"

definition uint8_of_real :: "real \<Rightarrow> 8 word" where
  "uint8_of_real x = word_of_int (if 0 \<le> x then \<lfloor>x\<rfloor> else \<lceil>x\<rceil>)"

definition astype_uint8 :: "real list list \<Rightarrow> 8 word list list" where
  "astype_uint8 a = map (map uint8_of_real) a"

section \<open>The aggregator\<close>

record report =
  forensic_score :: npfloat
  frequency :: npfloat
  noise :: npfloat
  compression :: npfloat
  color_corr :: npfloat

definition w_freq :: real where "w_freq = 0.35"
definition w_noise :: real where "w_noise = 0.3"
definition w_comp :: real where "w_comp = 0.2"
definition w_color :: real where "w_color = 0.15"

text \<open>Lines 146 to 156 of \<^verbatim>\<open>forensic_analyze\<close>: the weighted sum, clipped, and the
  record returned.\<close>

definition aggregate :: "npfloat \<Rightarrow> npfloat \<Rightarrow> npfloat \<Rightarrow> npfloat \<Rightarrow> report" where
  "aggregate freq_s noise_s comp_s color_s =
     (let s = fl_add (fl_add (fl_add (fl_mul (Num w_freq) freq_s) (fl_mul (Num w_noise) noise_s))
                             (fl_mul (Num w_comp) comp_s))
                     (fl_mul (Num w_color) color_s);
          s = np_clip s 0 1
      in \<lparr>forensic_score = s, frequency = freq_s, noise = noise_s,
          compression = comp_s, color_corr = color_s\<rparr>)"

text \<open>A score is in range when it is a number between 0 and 1.\<close>

definition unit_score :: "npfloat \<Rightarrow> bool" where
  "unit_score x = (case x of Num v \<Rightarrow> 0 \<le> v \<and> v \<le> 1 | NaN \<Rightarrow> False)"

text \<open>The clip of the specification: below the lower bound the bound, above the upper
  bound the bound, otherwise the value.\<close>

definition spec_clip :: "real \<Rightarrow> real \<Rightarrow> real \<Rightarrow> real" where
  "spec_clip x lo hi = (if x < lo then lo else if hi < x then hi else x)"

section \<open>The compression analyzer\<close>

text \<open>The slice \<^verbatim>\<open>error[y:y+bh, x:x+bw]\<close>, flattened.\<close>

definition block :: "real list list \<Rightarrow> nat \<Rightarrow> nat \<Rightarrow> nat \<Rightarrow> nat \<Rightarrow> real list" where
  "block a y x bh bw = concat (map (\<lambda>row. take bw (drop x row)) (take bh (drop y a)))"

text \<open>The re-compression error map of lines 101 to 103, for the decoded image of line 100.\<close>

definition abs_error :: "real list list \<Rightarrow> real list list \<Rightarrow> real list list" where
  "abs_error orig dec_gray = map2 (map2 (\<lambda>a b. \<bar>a - b\<bar> / 255.0)) orig dec_gray"

definition error_map :: "image \<Rightarrow> image \<Rightarrow> real list list" where
  "error_map img dec =
     (let orig = astype_float (cvtColor_BGR2GRAY img);
          dec_gray = astype_float (cvtColor_BGR2GRAY dec)
      in abs_error orig dec_gray)"

text \<open>The two loops of lines 104 to 110, over the 8 by 8 blocks.\<close>

definition block_variances :: "real list list \<Rightarrow> real list" where
  "block_variances err =
     (let (h, w) = shape err; bh = 8; bw = 8
      in concat (map (\<lambda>y. map (\<lambda>x. np_var (block err (nat y) (nat x) bh bw))
                                (py_range 0 (int w - int bw + 1) (int bw)))
                     (py_range 0 (int h - int bh + 1) (int bh))))"

text \<open>Lines 114 to 116: the score of the spread of the block variances.\<close>

definition spread_score :: "real list \<Rightarrow> npfloat" where
  "spread_score variances =
     (let spread = np_std variances;
          raw = tanh (spread * 50)
      in np_clip (Num raw) 0 1)"

definition compression_score ::
  "cvlib \<Rightarrow> image \<Rightarrow> error + (npfloat \<times> real list list)" where
  "compression_score L img =
     (case jpeg_roundtrip L img of
        Inl e \<Rightarrow> Inl e
      | Inr dec \<Rightarrow>
          (let err = error_map img dec;
               variances = block_variances err
           in if length variances = 0 then Inr (Num 0.5, err)
              else Inr (spread_score variances, err)))"

section \<open>The colour correlation analyzer\<close>

text \<open>
  \<^verbatim>\<open>np.corrcoef(a, b)[0,1]\<close>: the covariance (normalised by N - 1) over the product of
  the square roots of the two variances, clipped into [-1, 1] as numpy does.
\<close>

definition np_cov :: "real list \<Rightarrow> real list \<Rightarrow> real" where
  "np_cov a b =
     sum_list (map2 (\<lambda>x y. (x - np_mean a) * (y - np_mean b)) a b) / (real (length a) - 1)"

definition np_corrcoef :: "real list \<Rightarrow> real list \<Rightarrow> real" where
  "np_corrcoef a b = min (max (np_cov a b / (sqrt (np_cov a a) * sqrt (np_cov b b))) (-1)) 1"

definition safe_corr :: "real list \<Rightarrow> real list \<Rightarrow> real" where
  "safe_corr a b =
     (if np_std a < 0.000001 \<or> np_std b < 0.000001 then 0.0 else np_corrcoef a b)"

text \<open>\<^verbatim>\<open>rgb[:,:,k].ravel()\<close>: one channel of every pixel, row after row.\<close>

definition channel :: "(pixel \<Rightarrow> 8 word) \<Rightarrow> image \<Rightarrow> real list" where
  "channel sel img = map (\<lambda>p. real (unat (sel p))) (concat img)"

text \<open>Lines 126 to 130: the three correlations, their mean, and the score.\<close>

definition corr_score :: "real list \<Rightarrow> real list \<Rightarrow> real list \<Rightarrow> npfloat" where
  "corr_score r g b =
     (let rg = safe_corr r g;
          rb = safe_corr r b;
          gb = safe_corr g b;
          avg = np_mean [rg, rb, gb]
      in np_clip (Num ((avg + 1) / 2.0)) 0 1)"

definition color_corr_score :: "image \<Rightarrow> npfloat" where
  "color_corr_score img =
     (let rgb = cvtColor_BGR2RGB img;
          r = channel (\<lambda>(c0, c1, c2). c0) rgb;
          g = channel (\<lambda>(c0, c1, c2). c1) rgb;
          b = channel (\<lambda>(c0, c1, c2). c2) rgb
      in corr_score r g b)"

section \<open>The frequency analyzer\<close>

text \<open>Lines 48 and 49: the grey image, resampled.\<close>

definition resized_gray :: "cvlib \<Rightarrow> image \<Rightarrow> 8 word list list" where
  "resized_gray L img = (let gray = cvtColor_BGR2GRAY img in cv2_resize L gray)"

text \<open>Lines 50 to 53: the shifted spectrum, its magnitude and \<^verbatim>\<open>log1p\<close> of it.\<close>

definition np_abs_complex :: "complex list list \<Rightarrow> real list list" where
  "np_abs_complex a = map (map cmod) a"

definition np_log1p :: "real list list \<Rightarrow> real list list" where
  "np_log1p a = map (map (\<lambda>m. ln (1 + m))) a"

definition shifted_spectrum :: "cvlib \<Rightarrow> image \<Rightarrow> complex list list" where
  "shifted_spectrum L img =
     (let f = np_fft2 L (resized_gray L img)
      in np_fftshift L f)"

definition log_spectrum :: "cvlib \<Rightarrow> image \<Rightarrow> real list list" where
  "log_spectrum L img =
     (let fshift = shifted_spectrum L img;
          magnitude = np_abs_complex fshift
      in np_log1p magnitude)"

text \<open>Lines 56 to 58: the distance of every cell (y, x) from the centre (cy, cx).\<close>

definition radius_grid :: "nat \<Rightarrow> nat \<Rightarrow> real list list" where
  "radius_grid h w =
     (let cy = h div 2; cx = w div 2
      in map (\<lambda>y. map (\<lambda>x. sqrt (real_of_int ((int x - int cx)\<^sup>2 + (int y - int cy)\<^sup>2)))
                         [0 ..< w])
             [0 ..< h])"

text \<open>\<^verbatim>\<open>r.max()\<close>, and \<^verbatim>\<open>a[mask].sum()\<close> for a boolean mask of the shape of \<^verbatim>\<open>a\<close>.\<close>

definition np_max :: "real list list \<Rightarrow> real" where
  "np_max a = Max (set (concat a))"

definition mask_sum :: "real list list \<Rightarrow> bool list list \<Rightarrow> real" where
  "mask_sum a m = sum_list (map fst (filter snd (zip (concat a) (concat m))))"

text \<open>Lines 61 to 63: the three masks over the grid of radii.\<close>

definition low_band :: "real list list \<Rightarrow> real \<Rightarrow> bool list list" where
  "low_band r max_r = map (map (\<lambda>v. v \<le> 0.25 * max_r)) r"

definition mid_band :: "real list list \<Rightarrow> real \<Rightarrow> bool list list" where
  "mid_band r max_r = map (map (\<lambda>v. v > 0.25 * max_r \<and> v \<le> 0.6 * max_r)) r"

definition high_band :: "real list list \<Rightarrow> real \<Rightarrow> bool list list" where
  "high_band r max_r = map (map (\<lambda>v. v > 0.6 * max_r)) r"

text \<open>Lines 65 to 73: the energies of the bands, their balance, and the score.\<close>

definition band_score ::
  "real list list \<Rightarrow> bool list list \<Rightarrow> bool list list \<Rightarrow> bool list list \<Rightarrow> npfloat" where
  "band_score mag_log low_mask mid_mask high_mask =
     (let total = sum_list (concat mag_log) + 0.00000001;
          high_energy = mask_sum mag_log high_mask / total;
          mid_energy = mask_sum mag_log mid_mask / total;
          low_energy = mask_sum mag_log low_mask / total;
          frac_high = high_energy;
          balance = (mid_energy + high_energy) / (low_energy + 0.00000001);
          raw = frac_high * 0.7 + (balance / (balance + 1)) * 0.3
      in np_clip (Num raw) 0 1)"

definition frequency_score :: "cvlib \<Rightarrow> image \<Rightarrow> npfloat \<times> real list list" where
  "frequency_score L img =
     (let gray = resized_gray L img;
          mag_log = log_spectrum L img;
          (h, w) = shape gray;
          r = radius_grid h w;
          max_r = np_max r;
          low_mask = low_band r max_r;
          mid_mask = mid_band r max_r;
          high_mask = high_band r max_r
      in (band_score mag_log low_mask mid_mask high_mask, mag_log))"

subsection \<open>The frequency score in the words of the specification\<close>

text \<open>
  The specification starts from the shifted spectrum, the grid of complex values in
  which the zero frequency sits at the centre. Every cell has a log-magnitude,
  log (1 + x) of the magnitude x of its value, and a radius, its distance from the
  centre cell. The cells fall into three bands by radius: low up to a quarter of the
  largest radius, mid up to six tenths of it, high beyond. The energy of a band is the
  sum of the log-magnitudes of its cells over the sum of all log-magnitudes plus
  epsilon; balance is (mid + high) / (low + epsilon); and the score is
  clip (0.7 high + 0.3 balance / (balance + 1), 0, 1).
\<close>

datatype band = Low | Mid | High

definition band_of :: "real \<Rightarrow> real \<Rightarrow> band" where
  "band_of r r_max =
     (if r \<le> 0.25 * r_max then Low else if r \<le> 0.6 * r_max then Mid else High)"

definition spec_radius :: "nat \<Rightarrow> nat \<Rightarrow> nat \<Rightarrow> nat \<Rightarrow> real" where
  "spec_radius h w y x = sqrt ((real x - real (w div 2))\<^sup>2 + (real y - real (h div 2))\<^sup>2)"

text \<open>The cells of a spectrum, each with its radius and its log-magnitude.\<close>

definition spec_cells :: "complex list list \<Rightarrow> (real \<times> real) list" where
  "spec_cells S =
     (let (h, w) = shape S
      in concat (map (\<lambda>y. map (\<lambda>x. (spec_radius h w y x, ln (1 + cmod (S ! y ! x))))
                                [0 ..< w])
                     [0 ..< h]))"

definition spec_band_energy :: "band \<Rightarrow> (real \<times> real) list \<Rightarrow> real" where
  "spec_band_energy b cells =
     (let r_max = Max (set (map fst cells))
      in sum_list (map snd (filter (\<lambda>(r, m). band_of r r_max = b) cells))
           / (sum_list (map snd cells) + 0.00000001))"

definition spec_frequency_score :: "complex list list \<Rightarrow> real" where
  "spec_frequency_score S =
     (let cells = spec_cells S;
          low_energy = spec_band_energy Low cells;
          mid_energy = spec_band_energy Mid cells;
          high_energy = spec_band_energy High cells;
          balance = (mid_energy + high_energy) / (low_energy + 0.00000001)
      in spec_clip (0.7 * high_energy + 0.3 * (balance / (balance + 1))) 0 1)"

section \<open>The noise analyzer\<close>

text \<open>
  \<^verbatim>\<open>cv2.medianBlur(a, 3)\<close> on an 8-bit array: every cell becomes the median of the nine
  cells of its 3 by 3 neighbourhood, where a neighbour outside the array is the nearest
  cell inside (the border is replicated).
\<close>

definition clamp_index :: "int \<Rightarrow> nat \<Rightarrow> nat" where
  "clamp_index i n = nat (min (max i 0) (int n - 1))"

definition window3 :: "8 word list list \<Rightarrow> nat \<Rightarrow> nat \<Rightarrow> 8 word list" where
  "window3 a i j =
     (let (h, w) = shape a
      in concat (map (\<lambda>di. map (\<lambda>dj. a ! clamp_index (int i + di) h ! clamp_index (int j + dj) w)
                                 [-1, 0, 1])
                     [-1, 0, 1]))"

definition medianBlur3 :: "8 word list list \<Rightarrow> 8 word list list" where
  "medianBlur3 a =
     (let (h, w) = shape a
      in map (\<lambda>i. map (\<lambda>j. sort (window3 a i j) ! 4) [0 ..< w]) [0 ..< h])"

text \<open>
  \<^verbatim>\<open>np.histogram(a, bins, range=(lo, hi), density=True)[0]\<close>. The edges are evenly
  spaced from lo to hi; a bin holds the values from its left edge up to, and not
  including, its right edge, except the last bin, which includes hi; values outside
  the range are not counted. With \<^verbatim>\<open>density=True\<close> numpy returns
  \<^verbatim>\<open>n / db / n.sum()\<close>, for the counts n and the bin widths db: when no value was
  counted this divides 0.0 by 0, which is \<^verbatim>\<open>nan\<close> in every bin.
\<close>

definition bin_edge :: "nat \<Rightarrow> real \<Rightarrow> real \<Rightarrow> nat \<Rightarrow> real" where
  "bin_edge bins lo hi i = lo + real i * (hi - lo) / real bins"

definition in_bin :: "nat \<Rightarrow> real \<Rightarrow> real \<Rightarrow> nat \<Rightarrow> real \<Rightarrow> bool" where
  "in_bin bins lo hi i x =
     (bin_edge bins lo hi i \<le> x
      \<and> (if i + 1 = bins then x \<le> hi else x < bin_edge bins lo hi (i + 1)))"

definition hist_counts :: "real list \<Rightarrow> nat \<Rightarrow> real \<Rightarrow> real \<Rightarrow> nat list" where
  "hist_counts a bins lo hi = map (\<lambda>i. length (filter (in_bin bins lo hi i) a)) [0 ..< bins]"

definition np_histogram_density :: "real list \<Rightarrow> nat \<Rightarrow> real \<Rightarrow> real \<Rightarrow> npfloat list" where
  "np_histogram_density a bins lo hi =
     (let n = hist_counts a bins lo hi;
          total = sum_list n
      in if total = 0 then replicate bins NaN
         else map (\<lambda>i. Num (real (n ! i)
                             / (bin_edge bins lo hi (i + 1) - bin_edge bins lo hi i)
                             / real total))
                  [0 ..< bins])"

text \<open>
  \<^verbatim>\<open>a.astype(np.float32) / 255.0\<close> of an 8-bit array; line 77, the grey image as floats
  in [0, 1]; and \<^verbatim>\<open>(gray * 255).astype(np.uint8)\<close>.
\<close>

definition unit_floats :: "8 word list list \<Rightarrow> real list list" where
  "unit_floats a = map (map (\<lambda>v. v / 255.0)) (astype_float a)"

definition unit_gray :: "image \<Rightarrow> real list list" where
  "unit_gray img = unit_floats (cvtColor_BGR2GRAY img)"

definition gray_bytes :: "real list list \<Rightarrow> 8 word list list" where
  "gray_bytes gray = astype_uint8 (map (map (\<lambda>v. v * 255)) gray)"

text \<open>Lines 78 and 79: the residual of the median filter.\<close>

definition np_subtract :: "real list list \<Rightarrow> real list list \<Rightarrow> real list list" where
  "np_subtract a b = map2 (map2 (\<lambda>x y. x - y)) a b"

definition noise_residual :: "image \<Rightarrow> real list list" where
  "noise_residual img =
     (let gray = unit_gray img;
          med = unit_floats (medianBlur3 (gray_bytes gray))
      in np_subtract gray med)"

text \<open>
  The grey image, the median and the residual are float32 arrays in the program and
  arrays of reals here. For grey levels g and m the residual here is (g - m) / 255; in
  the program it is the float32 difference of the float32 quotients g / 255 and
  m / 255, which is 0 when g = m and otherwise differs from (g - m) / 255 by less than
  0.0000001. The product \<^verbatim>\<open>gray * 255\<close> of line 78 truncates to g again for each of the
  256 grey levels, here and in float32. So the two residuals lie in the same bin of the
  histogram of line 86, or both outside its range, unless g - m is 51 or -51, where
  (g - m) / 255 is an end of the range: a residual of 51 grey levels is 0.2 here and is
  counted, and it is 0.19999999, 0.2 or 0.20000002 in the program, depending on g. The
  images at which the histogram is evaluated below have residuals of 0 and of 60 grey
  levels.
\<close>

text \<open>Lines 86 to 88: the histogram of the residual and the entropy statistic.\<close>

definition residual_histogram :: "real list list \<Rightarrow> npfloat list" where
  "residual_histogram residual = np_histogram_density (concat residual) 64 (-0.2) 0.2"

definition hist_floor :: "npfloat list \<Rightarrow> npfloat list" where
  "hist_floor hist = map (\<lambda>p. fl_add p (Num 0.000000000001)) hist"

definition hist_entropy :: "npfloat list \<Rightarrow> npfloat" where
  "hist_entropy hist = fl_map uminus (fl_sum (map (\<lambda>p. fl_mul p (fl_map ln p)) hist))"

definition noise_hist :: "real list list \<Rightarrow> npfloat list" where
  "noise_hist residual =
     (let hist = residual_histogram residual
      in hist_floor hist)"

definition noise_entropy :: "real list list \<Rightarrow> npfloat" where
  "noise_entropy residual =
     (let hist = noise_hist residual
      in hist_entropy hist)"

text \<open>Lines 83 and 84 and lines 90 to 94: the three statistics, saturated and weighted.\<close>

definition noise_combine :: "real list list \<Rightarrow> real list list \<Rightarrow> npfloat \<Rightarrow> npfloat" where
  "noise_combine residual lap entropy =
     (let resid_std = np_std (concat residual);
          lap_std = np_std (concat lap) / 255.0;
          resid_norm = tanh (resid_std * 10);
          lap_norm = tanh (lap_std * 5);
          ent_norm = fl_map (\<lambda>e. tanh (e / 3.0)) entropy;
          raw = fl_add (Num (0.45 * resid_norm + 0.35 * lap_norm)) (fl_mul (Num 0.20) ent_norm)
      in np_clip raw 0 1)"

text \<open>\<^verbatim>\<open>np.abs\<close> of an array, and the analyzer.\<close>

definition np_abs :: "real list list \<Rightarrow> real list list" where
  "np_abs a = map (map abs) a"

definition noise_score :: "cvlib \<Rightarrow> image \<Rightarrow> npfloat \<times> real list list" where
  "noise_score L img =
     (let gray = unit_gray img;
          residual = noise_residual img;
          lap = Laplacian L (gray_bytes gray);
          lap = np_abs lap;
          entropy = noise_entropy residual
      in (noise_combine residual lap entropy, residual))"

section \<open>The combined analyzer\<close>

text \<open>
  \<^verbatim>\<open>forensic_analyze\<close> is written over a log of the calls it makes: every call of
  \<^verbatim>\<open>cv2.imread\<close> and of an analyzer adds itself to the log when it is made, and an
  error ends the run at the call that raises it.
\<close>

datatype call = Imread | Frequency_score | Noise_score | Compression_score | Color_corr_score

definition logged :: "call \<Rightarrow> 'a \<Rightarrow> (call list, 'a) state" where
  "logged c v = State (\<lambda>calls. (v, calls @ [c]))"

definition forensic_analyze :: "cvlib \<Rightarrow> string \<Rightarrow> (call list, error + report) state" where
  "forensic_analyze L image_path = do {
     decoded \<leftarrow> logged Imread (imread L image_path);
     case decoded of
       None \<Rightarrow> State_Monad.return (Inl (ValueError ''Cannot read image for forensic analysis.''))
     | Some img \<Rightarrow> do {
         freq \<leftarrow> logged Frequency_score (frequency_score L img);
         nois \<leftarrow> logged Noise_score (noise_score L img);
         comp \<leftarrow> logged Compression_score (compression_score L img);
         case comp of
           Inl e \<Rightarrow> State_Monad.return (Inl e)
         | Inr c \<Rightarrow> do {
             color_s \<leftarrow> logged Color_corr_score (color_corr_score img);
             State_Monad.return (Inr (aggregate (fst freq) (fst nois) (fst c) color_s))
           }
       }
   }"

section \<open>The analyzers on a store of arrays\<close>

text \<open>
  numpy arrays are mutable objects and the analyzers receive a reference to the decoded
  image. To follow what an analyzer does to the arrays it is given, the analyzers are
  written a second time over a store of arrays: an array lives in a cell of the store,
  a variable of the source holds the address of its array, every array operand is read
  from the store when the statement runs, and every statement that binds an array (the
  result of an OpenCV or numpy call, none of which is given an output argument) puts the
  result into a fresh cell. The source has no statement that assigns into an array.
\<close>

datatype ndarray =
    Bgr image
  | Bytes "8 word list list"
  | Floats "real list list"
  | Complexes "complex list list"
  | Bools "bool list list"
  | Floats1 "real list"
  | Vector "npfloat list"

record store =
  cells :: "nat \<Rightarrow> ndarray option"
  used :: nat

text \<open>A fresh cell for a new array; its address is the number of cells in use.\<close>

definition put :: "store \<Rightarrow> ndarray \<Rightarrow> store" where
  "put s x = s\<lparr>cells := (cells s)(used s := Some x), used := Suc (used s)\<rparr>"

definition new :: "(store \<Rightarrow> ndarray) \<Rightarrow> (store, nat) state" where
  "new v = State (\<lambda>s. (used s, put s (v s)))"

definition read :: "(store \<Rightarrow> 'a) \<Rightarrow> (store, 'a) state" where
  "read f = State (\<lambda>s. (f s, s))"

text \<open>The array at an address, read at its type.\<close>

definition bgr_at :: "store \<Rightarrow> nat \<Rightarrow> image" where
  "bgr_at s a = (case cells s a of Some (Bgr v) \<Rightarrow> v | _ \<Rightarrow> [])"

definition bytes_at :: "store \<Rightarrow> nat \<Rightarrow> 8 word list list" where
  "bytes_at s a = (case cells s a of Some (Bytes v) \<Rightarrow> v | _ \<Rightarrow> [])"

definition floats_at :: "store \<Rightarrow> nat \<Rightarrow> real list list" where
  "floats_at s a = (case cells s a of Some (Floats v) \<Rightarrow> v | _ \<Rightarrow> [])"

definition complexes_at :: "store \<Rightarrow> nat \<Rightarrow> complex list list" where
  "complexes_at s a = (case cells s a of Some (Complexes v) \<Rightarrow> v | _ \<Rightarrow> [])"

definition bools_at :: "store \<Rightarrow> nat \<Rightarrow> bool list list" where
  "bools_at s a = (case cells s a of Some (Bools v) \<Rightarrow> v | _ \<Rightarrow> [])"

definition floats1_at :: "store \<Rightarrow> nat \<Rightarrow> real list" where
  "floats1_at s a = (case cells s a of Some (Floats1 v) \<Rightarrow> v | _ \<Rightarrow> [])"

definition vector_at :: "store \<Rightarrow> nat \<Rightarrow> npfloat list" where
  "vector_at s a = (case cells s a of Some (Vector v) \<Rightarrow> v | _ \<Rightarrow> [])"

definition frequency_score_st :: "cvlib \<Rightarrow> nat \<Rightarrow> (store, npfloat \<times> nat) state" where
  "frequency_score_st L image_ref = do {
     gray \<leftarrow> new (\<lambda>s. Bytes (cvtColor_BGR2GRAY (bgr_at s image_ref)));
     gray \<leftarrow> new (\<lambda>s. Bytes (cv2_resize L (bytes_at s gray)));
     f \<leftarrow> new (\<lambda>s. Complexes (np_fft2 L (bytes_at s gray)));
     fshift \<leftarrow> new (\<lambda>s. Complexes (np_fftshift L (complexes_at s f)));
     magnitude \<leftarrow> new (\<lambda>s. Floats (np_abs_complex (complexes_at s fshift)));
     mag_log \<leftarrow> new (\<lambda>s. Floats (np_log1p (floats_at s magnitude)));
     hw \<leftarrow> read (\<lambda>s. shape (bytes_at s gray));
     r \<leftarrow> new (\<lambda>s. Floats (radius_grid (fst hw) (snd hw)));
     max_r \<leftarrow> read (\<lambda>s. np_max (floats_at s r));
     low_mask \<leftarrow> new (\<lambda>s. Bools (low_band (floats_at s r) max_r));
     mid_mask \<leftarrow> new (\<lambda>s. Bools (mid_band (floats_at s r) max_r));
     high_mask \<leftarrow> new (\<lambda>s. Bools (high_band (floats_at s r) max_r));
     score \<leftarrow> read (\<lambda>s. band_score (floats_at s mag_log) (bools_at s low_mask)
                                  (bools_at s mid_mask) (bools_at s high_mask));
     State_Monad.return (score, mag_log)
   }"

definition noise_score_st :: "cvlib \<Rightarrow> nat \<Rightarrow> (store, npfloat \<times> nat) state" where
  "noise_score_st L image_ref = do {
     gray \<leftarrow> new (\<lambda>s. Floats (unit_gray (bgr_at s image_ref)));
     med \<leftarrow> new (\<lambda>s. Floats (unit_floats (medianBlur3 (gray_bytes (floats_at s gray)))));
     residual \<leftarrow> new (\<lambda>s. Floats (np_subtract (floats_at s gray) (floats_at s med)));
     lap \<leftarrow> new (\<lambda>s. Floats (Laplacian L (gray_bytes (floats_at s gray))));
     lap \<leftarrow> new (\<lambda>s. Floats (np_abs (floats_at s lap)));
     hist \<leftarrow> new (\<lambda>s. Vector (residual_histogram (floats_at s residual)));
     hist \<leftarrow> new (\<lambda>s. Vector (hist_floor (vector_at s hist)));
     entropy \<leftarrow> read (\<lambda>s. hist_entropy (vector_at s hist));
     score \<leftarrow> read (\<lambda>s. noise_combine (floats_at s residual) (floats_at s lap) entropy);
     State_Monad.return (score, residual)
   }"

definition compression_score_st ::
  "cvlib \<Rightarrow> nat \<Rightarrow> (store, error + (npfloat \<times> nat)) state" where
  "compression_score_st L image_ref = do {
     roundtrip \<leftarrow> read (\<lambda>s. jpeg_roundtrip L (bgr_at s image_ref));
     case roundtrip of
       Inl e \<Rightarrow> State_Monad.return (Inl e)
     | Inr d \<Rightarrow> do {
         dec \<leftarrow> new (\<lambda>s. Bgr d);
         orig \<leftarrow> new (\<lambda>s. Floats (astype_float (cvtColor_BGR2GRAY (bgr_at s image_ref))));
         dec_gray \<leftarrow> new (\<lambda>s. Floats (astype_float (cvtColor_BGR2GRAY (bgr_at s dec))));
         err \<leftarrow> new (\<lambda>s. Floats (abs_error (floats_at s orig) (floats_at s dec_gray)));
         variances \<leftarrow> new (\<lambda>s. Floats1 (block_variances (floats_at s err)));
         size \<leftarrow> read (\<lambda>s. length (floats1_at s variances));
         if size = 0 then State_Monad.return (Inr (Num 0.5, err))
         else do {
           score \<leftarrow> read (\<lambda>s. spread_score (floats1_at s variances));
           State_Monad.return (Inr (score, err))
         }
       }
   }"

definition color_corr_score_st :: "nat \<Rightarrow> (store, npfloat) state" where
  "color_corr_score_st image_ref = do {
     rgb \<leftarrow> new (\<lambda>s. Bgr (cvtColor_BGR2RGB (bgr_at s image_ref)));
     r \<leftarrow> new (\<lambda>s. Floats1 (channel (\<lambda>(c0, c1, c2). c0) (bgr_at s rgb)));
     g \<leftarrow> new (\<lambda>s. Floats1 (channel (\<lambda>(c0, c1, c2). c1) (bgr_at s rgb)));
     b \<leftarrow> new (\<lambda>s. Floats1 (channel (\<lambda>(c0, c1, c2). c2) (bgr_at s rgb)));
     score \<leftarrow> read (\<lambda>s. corr_score (floats1_at s r) (floats1_at s g) (floats1_at s b));
     State_Monad.return score
   }"

text \<open>
  Lines 141 to 144: the four analyzers, one after the other, on the same image; an
  error of the compression analyzer ends the run.
\<close>

definition run_analyzers ::
  "cvlib \<Rightarrow> nat \<Rightarrow> (store, error + (npfloat \<times> npfloat \<times> npfloat \<times> npfloat)) state" where
  "run_analyzers L image_ref = do {
     freq \<leftarrow> frequency_score_st L image_ref;
     nois \<leftarrow> noise_score_st L image_ref;
     comp \<leftarrow> compression_score_st L image_ref;
     case comp of
       Inl e \<Rightarrow> State_Monad.return (Inl e)
     | Inr c \<Rightarrow> do {
         color_s \<leftarrow> color_corr_score_st image_ref;
         State_Monad.return (Inr (fst freq, fst nois, fst c, color_s))
       }
   }"

text \<open>
  A later store extends an earlier one when every cell of the earlier store is still
  there with the same content. \<open>post m s Q\<close> says that Q holds of the result and the
  final store of running m from s.
\<close>

definition extends :: "store \<Rightarrow> store \<Rightarrow> bool" where
  "extends s s' \<longleftrightarrow> used s \<le> used s' \<and> (\<forall>a < used s. cells s' a = cells s a)"

definition post :: "(store, 'a) state \<Rightarrow> store \<Rightarrow> ('a \<Rightarrow> store \<Rightarrow> bool) \<Rightarrow> bool" where
  "post m s Q = Q (fst (run_state m s)) (snd (run_state m s))"

section \<open>Instances\<close>

text \<open>
  A library instance at which the theorems below are instantiated: no file decodes, the
  JPEG round trip and the shift return the values of their argument, and resampling,
  the transform and the Laplacian return zeros.
\<close>

definition lossless_lib :: cvlib where
  "lossless_lib =
     \<lparr>imread = (\<lambda>path. None), resize_area = (\<lambda>gray y x. 0), fft2 = (\<lambda>a y x. 0),
      fftshift = (\<lambda>f y x. f ! y ! x), Laplacian = map (map (\<lambda>v. 0)),
      jpeg_pixel = (\<lambda>img y x. img ! y ! x)\<rparr>"

text \<open>
  An image of two rows of three grey pixels in which every pixel differs from the median
  of its neighbourhood by 60 grey levels; and a black image of one row of 65501 pixels.
\<close>

definition nan_image :: image where
  "nan_image = [[(0, 0, 0), (120, 120, 120), (0, 0, 0)],
                [(180, 180, 180), (60, 60, 60), (180, 180, 180)]]"

definition wide_image :: image where
  "wide_image = replicate 1 (replicate 65501 (0, 0, 0))"

text \<open>The library instance in which every path decodes to that image.\<close>

definition wide_lib :: cvlib where
  "wide_lib = lossless_lib\<lparr>imread := (\<lambda>path. Some wide_image)\<rparr>"

section \<open>Properties\<close>

lemma np_clip_spec_clip: "lo \<le> hi \<Longrightarrow> np_clip (Num x) lo hi = Num (spec_clip x lo hi)"
  by (simp add: spec_clip_def min_def max_def)

text \<open>
  C1. For all four sub-scores f, n, c and s the aggregator returns
  clip(0.35 f + 0.30 n + 0.20 c + 0.15 s, 0, 1) as the forensic score, and the four
  weights add up to 1.
\<close>

theorem aggregate_weighted_sum:
  "forensic_score (aggregate (Num f) (Num n) (Num c) (Num s))
     = Num (spec_clip (0.35 * f + 0.30 * n + 0.20 * c + 0.15 * s) 0 1)
   \<and> w_freq + w_noise + w_comp + w_color = 1"
  by (simp add: aggregate_def Let_def np_clip_spec_clip
      w_freq_def w_noise_def w_comp_def w_color_def del: np_clip.simps)

subsection \<open>Blocks of the compression analyzer\<close>

lemma py_range_empty: "0 < step \<Longrightarrow> py_range start stop step = [] \<longleftrightarrow> stop \<le> start"
proof -
  assume s: "0 < step"
  have "0 < (stop - start + step - 1) div step \<longleftrightarrow> step \<le> stop - start + step - 1"
    using s by (rule pos_imp_zdiv_pos_iff)
  then show ?thesis unfolding py_range_def by auto
qed

lemma concat_map_map_empty:
  "concat (map (\<lambda>y. map (g y) xs) ys) = [] \<longleftrightarrow> ys = [] \<or> xs = []"
  by (cases ys) auto

lemma block_variances_empty:
  "block_variances err = [] \<longleftrightarrow> fst (shape err) < 8 \<or> snd (shape err) < 8"
proof -
  have "block_variances err = [] \<longleftrightarrow>
        py_range 0 (int (fst (shape err)) - 8 + 1) 8 = []
        \<or> py_range 0 (int (snd (shape err)) - 8 + 1) 8 = []"
    unfolding block_variances_def Let_def split_beta
    by (simp only: concat_map_map_empty of_nat_numeral)
  then show ?thesis by (simp add: py_range_empty) linarith
qed

lemma shape_replicate: "shape (replicate h (replicate w p)) = (h, if h = 0 then 0 else w)"
  by (cases h) (simp_all add: shape_def)

lemma shape_tabulate2: "shape (tabulate2 h w f) = (h, if h = 0 then 0 else w)"
  by (cases h) (simp_all add: shape_def tabulate2_def hd_map upt_conv_Cons del: upt_Suc)

lemma shape_empty_width: "fst (shape a) = 0 \<Longrightarrow> snd (shape a) = 0"
  by (simp add: shape_def)

lemma jpeg_roundtrip_shape:
  assumes "jpeg_roundtrip L img = Inr dec"
  shows "shape dec = shape img"
proof -
  have "dec = tabulate2 (fst (shape img)) (snd (shape img)) (jpeg_pixel L img)"
    using assms by (simp add: jpeg_roundtrip_def split_beta split: if_splits)
  then have "shape dec = (fst (shape img), if fst (shape img) = 0 then 0 else snd (shape img))"
    by (simp only: shape_tabulate2)
  then show ?thesis
    using shape_empty_width [of img] by (cases "shape img") auto
qed

lemma jpeg_roundtrip_accepts:
  assumes "fst (shape img) \<le> 65500" and "snd (shape img) \<le> 65500"
  shows "jpeg_roundtrip L img
         = Inr (tabulate2 (fst (shape img)) (snd (shape img)) (jpeg_pixel L img))"
  using assms by (simp add: jpeg_roundtrip_def split_beta)

lemma jpeg_roundtrip_refuses:
  assumes "65500 < fst (shape img) \<or> 65500 < snd (shape img)"
  shows "jpeg_roundtrip L img = Inl Cv2Error"
  using assms by (auto simp: jpeg_roundtrip_def split_beta)

lemma shape_error_map:
  "shape dec = shape img \<Longrightarrow> shape (error_map img dec) = shape img"
  by (auto simp: shape_def error_map_def abs_error_def Let_def astype_float_def
      cvtColor_BGR2GRAY_def hd_map hd_zip split: if_splits)

lemma compression_score_no_blocks:
  assumes "jpeg_roundtrip L img = Inr dec" and "block_variances (error_map img dec) = []"
  shows "compression_score L img = Inr (Num (1 / 2), error_map img dec)"
  using assms by (simp add: compression_score_def Let_def)

lemma compression_score_refused:
  assumes "65500 < fst (shape img) \<or> 65500 < snd (shape img)"
  shows "compression_score L img = Inl Cv2Error"
  by (simp add: compression_score_def jpeg_roundtrip_refuses [OF assms])

lemma shape_wide_image: "shape wide_image = (1, 65501)"
  by (simp add: wide_image_def shape_def)

text \<open>
  C5. Whenever the error map has no 8 by 8 block, the compression score is exactly the
  neutral 0.5, a value and not an error; in particular for every image below 8 rows
  and below 8 columns.
\<close>

theorem compression_score_degenerate:
  "(jpeg_roundtrip L img = Inr dec \<and> block_variances (error_map img dec) = []
      \<longrightarrow> compression_score L img = Inr (Num 0.5, error_map img dec))
   \<and> (fst (shape img) < 8 \<and> snd (shape img) < 8
      \<longrightarrow> (\<exists>err. compression_score L img = Inr (Num 0.5, err)))"
proof (intro conjI impI)
  assume "jpeg_roundtrip L img = Inr dec \<and> block_variances (error_map img dec) = []"
  then show "compression_score L img = Inr (Num 0.5, error_map img dec)"
    using compression_score_no_blocks [of L img dec] by simp
next
  assume a: "fst (shape img) < 8 \<and> snd (shape img) < 8"
  let ?dec = "tabulate2 (fst (shape img)) (snd (shape img)) (jpeg_pixel L img)"
  have r: "jpeg_roundtrip L img = Inr ?dec"
    using a by (intro jpeg_roundtrip_accepts) simp_all
  have "shape (error_map img ?dec) = shape img"
    by (rule shape_error_map) (rule jpeg_roundtrip_shape [OF r])
  then have "block_variances (error_map img ?dec) = []"
    using a by (simp add: block_variances_empty)
  then have "compression_score L img = Inr (Num 0.5, error_map img ?dec)"
    using compression_score_no_blocks [OF r] by simp
  then show "\<exists>err. compression_score L img = Inr (Num 0.5, err)" ..
qed

theorem compression_score_degenerate_witness:
  "jpeg_roundtrip lossless_lib (replicate 4 (replicate 4 (7, 7, 7)))
     = Inr (replicate 4 (replicate 4 (7, 7, 7)))
   \<and> block_variances (error_map (replicate 4 (replicate 4 (7, 7, 7)))
                                  (replicate 4 (replicate 4 (7, 7, 7)))) = []
   \<and> fst (shape (replicate 4 (replicate 4 (7 :: 8 word, 7 :: 8 word, 7 :: 8 word)))) < 8
   \<and> snd (shape (replicate 4 (replicate 4 (7 :: 8 word, 7 :: 8 word, 7 :: 8 word)))) < 8
   \<and> compression_score lossless_lib (replicate 4 (replicate 4 (7, 7, 7)))
       = Inr (Num 0.5, error_map (replicate 4 (replicate 4 (7, 7, 7)))
                                 (replicate 4 (replicate 4 (7, 7, 7))))"
proof -
  let ?img = "replicate 4 (replicate 4 (7 :: 8 word, 7 :: 8 word, 7 :: 8 word))"
  have s: "shape ?img = (4, 4)"
    by (simp add: shape_replicate)
  have t: "tabulate2 4 4 (\<lambda>y x. ?img ! y ! x) = ?img"
    by (simp add: tabulate2_def upt_conv_Cons numeral_eq_Suc del: upt_Suc)
  have r: "jpeg_roundtrip lossless_lib ?img = Inr ?img"
    by (simp add: jpeg_roundtrip_def s lossless_lib_def t)
  have e: "block_variances (error_map ?img ?img) = []"
    by (simp add: block_variances_empty shape_error_map s)
  from compression_score_degenerate [of lossless_lib ?img ?img] r e s
  show ?thesis by simp
qed

text \<open>
  C10, as amended. For an image of h rows and w columns that the JPEG encoder accepts,
  h and w at most 65500, the error map has no 8 by 8 block exactly when h < 8 or w < 8,
  and then the compression score is 0.5: being small in one dimension is enough.
\<close>

theorem zero_blocks_iff_small:
  assumes "shape img = (h, w)" and "h \<le> 65500" and "w \<le> 65500"
  shows "\<exists>dec. jpeg_roundtrip L img = Inr dec
           \<and> (block_variances (error_map img dec) = [] \<longleftrightarrow> h < 8 \<or> w < 8)
           \<and> (h < 8 \<or> w < 8 \<longrightarrow> compression_score L img = Inr (Num 0.5, error_map img dec))"
proof -
  let ?dec = "tabulate2 (fst (shape img)) (snd (shape img)) (jpeg_pixel L img)"
  have r: "jpeg_roundtrip L img = Inr ?dec"
    using assms by (intro jpeg_roundtrip_accepts) simp_all
  have "shape (error_map img ?dec) = (h, w)"
    using shape_error_map [OF jpeg_roundtrip_shape [OF r]] assms(1) by simp
  then have iff: "block_variances (error_map img ?dec) = [] \<longleftrightarrow> h < 8 \<or> w < 8"
    by (simp add: block_variances_empty)
  then have "h < 8 \<or> w < 8 \<longrightarrow> compression_score L img = Inr (Num 0.5, error_map img ?dec)"
    using compression_score_no_blocks [OF r] by simp
  with r iff show ?thesis by blast
qed

theorem zero_blocks_iff_small_witness:
  "shape (replicate 4 (replicate 100 (7 :: 8 word, 7 :: 8 word, 7 :: 8 word))) = (4, 100)
   \<and> (4 :: nat) \<le> 65500 \<and> (100 :: nat) \<le> 65500
   \<and> (\<exists>dec. jpeg_roundtrip lossless_lib (replicate 4 (replicate 100 (7, 7, 7))) = Inr dec
          \<and> block_variances (error_map (replicate 4 (replicate 100 (7, 7, 7))) dec) = []
          \<and> compression_score lossless_lib (replicate 4 (replicate 100 (7, 7, 7)))
              = Inr (Num 0.5, error_map (replicate 4 (replicate 100 (7, 7, 7))) dec))"
proof -
  let ?img = "replicate 4 (replicate 100 (7 :: 8 word, 7 :: 8 word, 7 :: 8 word))"
  have s: "shape ?img = (4, 100)"
    by (simp add: shape_replicate)
  have a: "(4 :: nat) \<le> 65500" and b: "(100 :: nat) \<le> 65500" by simp_all
  from zero_blocks_iff_small [OF s a b, of lossless_lib] s show ?thesis by auto
qed

text \<open>
  The claim C10 as it was stated, for every image below 8 rows or below 8 columns,
  fails at the image of one row of 65501 pixels: the encoder refuses it and the
  compression analyzer raises.
\<close>

theorem wide_image_compression_raises:
  "fst (shape wide_image) < 8 \<and> compression_score lossless_lib wide_image = Inl Cv2Error"
  by (simp add: shape_wide_image compression_score_refused)

subsection \<open>Colour correlation of a flat image\<close>



lemma concat_replicate_replicate:
  "concat (replicate h (replicate w p)) = replicate (h * w) p"
  by (induction h) (simp_all add: replicate_add)





subsection \<open>The histogram of the noise analyzer\<close>

lemma fl_sum_Num: "fl_sum (map (\<lambda>i. Num (g i)) xs) = Num (sum_list (map g xs))"
  by (induction xs) (simp_all add: fl_sum_def)

lemma bin_width: "0 < bins \<Longrightarrow>
  bin_edge bins lo hi (i + 1) - bin_edge bins lo hi i = (hi - lo) / real bins"
  by (simp add: bin_edge_def field_simps)

lemma real_sum_list: "real (sum_list ns) = sum_list (map real ns)"
  by (induction ns) simp_all

lemma sum_list_divide: "sum_list (map (\<lambda>i. f i / (c :: real)) xs) = sum_list (map f xs) / c"
  by (induction xs) (simp_all add: add_divide_distrib)

lemma density_values:
  assumes "sum_list (hist_counts a bins lo hi) \<noteq> 0" and "0 < bins"
  shows "np_histogram_density a bins lo hi
         = map (\<lambda>i. Num (real (hist_counts a bins lo hi ! i) / ((hi - lo) / real bins)
                          / real (sum_list (hist_counts a bins lo hi)))) [0 ..< bins]"
  unfolding np_histogram_density_def Let_def bin_width [OF assms(2)]
  using assms(1) by (simp only: if_False)

lemma density_sum:
  assumes "sum_list (hist_counts a bins lo hi) \<noteq> 0" and "0 < bins" and "lo < hi"
  shows "fl_sum (np_histogram_density a bins lo hi) = Num (real bins / (hi - lo))"
proof -
  let ?n = "hist_counts a bins lo hi"
  let ?s = "real (sum_list ?n)"
  have s: "?s \<noteq> 0" using assms(1) by simp
  have d: "hi - lo \<noteq> 0" using assms(3) by simp
  have len: "length ?n = bins" by (simp add: hist_counts_def)
  have "sum_list (map (\<lambda>i. real (?n ! i) / ((hi - lo) / real bins) / ?s) [0 ..< bins])
        = sum_list (map (\<lambda>i. real (?n ! i)) [0 ..< bins]) / ((hi - lo) / real bins) / ?s"
    by (simp only: sum_list_divide)
  also have "map (\<lambda>i. real (?n ! i)) [0 ..< bins] = map real ?n"
    by (simp add: list_eq_iff_nth_eq len)
  also have "sum_list (map real ?n) = ?s" by (simp add: real_sum_list)
  also have "?s / ((hi - lo) / real bins) / ?s = real bins / (hi - lo)"
    using s d by simp
  finally show ?thesis
    by (simp only: density_values [OF assms(1,2)] fl_sum_Num)
qed

lemma shape_replicate': "0 < h \<Longrightarrow> shape (replicate h (replicate w p)) = (h, w)"
  by (simp add: shape_replicate)

lemma gray_flat:
  "cvtColor_BGR2GRAY (replicate h (replicate w c)) = replicate h (replicate w (gray_of_pixel c))"
  by (simp add: cvtColor_BGR2GRAY_def)

lemma unit_gray_flat:
  "unit_gray (replicate h (replicate w c))
     = replicate h (replicate w (real (unat (gray_of_pixel c)) / 255))"
  by (simp add: unit_gray_def unit_floats_def gray_flat astype_float_def)

lemma uint8_of_real_unat: "uint8_of_real (real (unat g)) = g"
proof -
  have "0 \<le> real (unat g)" by (rule of_nat_0_le_iff)
  moreover have "\<lfloor>real (unat g)\<rfloor> = int (unat g)" by (rule floor_of_nat)
  moreover have "word_of_int (int (unat g)) = g" by simp
  ultimately show ?thesis unfolding uint8_of_real_def by (simp only: if_True)
qed

lemma uint8_of_real_unsigned: "uint8_of_real (unsigned g) = g"
proof -
  have "(unsigned g :: real) = real (unat g)" by simp
  then show ?thesis by (simp only: uint8_of_real_unat)
qed

lemma gray_bytes_flat:
  "gray_bytes (replicate h (replicate w (real (unat g) / 255))) = replicate h (replicate w g)"
  by (simp add: gray_bytes_def astype_uint8_def uint8_of_real_unsigned)

lemma clamp_index_less: "0 < n \<Longrightarrow> clamp_index i n < n"
  by (simp add: clamp_index_def)

lemma window3_flat:
  assumes "0 < h" and "0 < w"
  shows "window3 (replicate h (replicate w g)) i j = replicate 9 g"
  using assms
  by (simp add: window3_def shape_replicate' clamp_index_less numeral_eq_Suc)

lemma sort_replicate: "sort (replicate n (g :: 8 word)) = replicate n g"
  by (induction n) (simp_all add: insort_is_Cons)

lemma medianBlur3_flat:
  assumes "0 < h" and "0 < w"
  shows "medianBlur3 (replicate h (replicate w g)) = replicate h (replicate w g)"
  using assms
  by (simp add: medianBlur3_def shape_replicate' window3_flat sort_replicate map_replicate_const)

lemma residual_flat:
  assumes "0 < h" and "0 < w"
  shows "noise_residual (replicate h (replicate w c)) = replicate h (replicate w 0)"
  unfolding noise_residual_def Let_def unit_gray_flat gray_bytes_flat medianBlur3_flat [OF assms]
  by (simp add: unit_floats_def np_subtract_def astype_float_def zip_replicate map_replicate)

lemma in_bin_zero: "i < 64 \<Longrightarrow> in_bin 64 (- 0.2) 0.2 i 0 \<longleftrightarrow> i = 32"
  by (auto simp: in_bin_def bin_edge_def field_simps)

lemma filter_replicate_if:
  "filter P (replicate n x) = (if P x then replicate n x else [])"
  by (induction n) simp_all

lemma counts_flat:
  "hist_counts (replicate n 0) 64 (- 0.2) 0.2 = map (\<lambda>i. if i = 32 then n else 0) [0 ..< 64]"
proof -
  have "length (filter (in_bin 64 (- 0.2) 0.2 i) (replicate n 0)) = (if i = 32 then n else 0)"
    if "i \<in> set [0 ..< 64]" for i
  proof -
    have "i < 64" using that by simp
    then have e: "in_bin 64 (- 0.2) 0.2 i 0 \<longleftrightarrow> i = 32"
      by (rule in_bin_zero)
    show ?thesis
      unfolding filter_replicate_if e by simp
  qed
  then show ?thesis
    unfolding hist_counts_def by (intro map_cong refl)
qed

lemma upt_64_split: "[0 ..< 64] = [0 ..< 32] @ 32 # [33 ..< 64]"
proof -
  have "[0 ..< 64] = [0 ..< 32] @ [32 ..< 64]"
    using upt_add_eq_append [of 0 32 32] by simp
  also have "[32 ..< 64] = 32 # [33 ..< 64]"
    by (simp add: upt_conv_Cons)
  finally show ?thesis .
qed

lemma sum_list_single_32:
  fixes a b :: "'a :: semiring_1"
  shows "sum_list (map (\<lambda>i. if i = 32 then a else b) [0 ..< 64]) = a + 63 * b"
proof -
  have l: "map (\<lambda>i. if i = 32 then a else b) [0 ..< 32] = map (\<lambda>i. b) [0 ..< 32]"
    by (rule map_cong) simp_all
  have "x \<noteq> 32" if "x \<in> set [33 ..< 64]" for x :: nat
    using that unfolding set_upt atLeastLessThan_iff by arith
  then have r: "map (\<lambda>i. if i = 32 then a else b) [33 ..< 64] = map (\<lambda>i. b) [33 ..< 64]"
    by (intro map_cong) (simp_all only: if_False)
  have s: "sum_list (map (\<lambda>i. if i = 32 then a else b) [0 ..< 64])
        = sum_list (map (\<lambda>i. b) [0 ..< 32]) + (a + sum_list (map (\<lambda>i. b) [33 ..< 64]))"
    unfolding upt_64_split map_append list.map sum_list_append sum_list.Cons l r by simp
  have s1: "sum_list (map (\<lambda>i. b) [0 ..< 32]) = 32 * b"
    by (simp only: sum_list_triv length_upt) simp
  have s2: "sum_list (map (\<lambda>i. b) [33 ..< 64]) = 31 * b"
    by (simp only: sum_list_triv length_upt) simp
  have "32 * b + 31 * b = (32 + 31) * b"
    by (simp only: distrib_right)
  then have s3: "32 * b + 31 * b = 63 * b"
    by simp
  show ?thesis
    unfolding s s1 s2 by (simp add: add.left_commute s3)
qed

lemma total_flat: "sum_list (hist_counts (replicate n 0) 64 (- 0.2) 0.2) = n"
  unfolding counts_flat sum_list_single_32 by simp

lemma density_flat:
  assumes "0 < n"
  shows "np_histogram_density (replicate n 0) 64 (- 0.2) 0.2
         = map (\<lambda>i. Num (if i = 32 then 160 else 0)) [0 ..< 64]"
proof -
  have t: "sum_list (hist_counts (replicate n 0) 64 (- 0.2) 0.2) \<noteq> 0"
    using assms by (simp only: total_flat)
  have "real (hist_counts (replicate n 0) 64 (- 0.2) 0.2 ! i) / ((0.2 - - 0.2) / real 64)
          / real (sum_list (hist_counts (replicate n 0) 64 (- 0.2) 0.2))
        = (if i = 32 then 160 else 0)" if "i \<in> set [0 ..< 64]" for i
  proof -
    have i: "i < 64" using that by simp
    have c: "hist_counts (replicate n 0) 64 (- 0.2) 0.2 ! i = (if i = 32 then n else 0)"
      unfolding counts_flat using i by (simp only: nth_map_upt) simp
    show ?thesis
      unfolding c total_flat using assms by simp
  qed
  then show ?thesis
    unfolding density_values [OF t zero_less_numeral]
    by (intro map_cong refl arg_cong [where f = Num])
qed

lemma noise_hist_flat:
  assumes "0 < h" and "0 < w"
  shows "noise_hist (replicate h (replicate w 0))
         = map (\<lambda>i. Num (if i = 32 then 160 + 0.000000000001 else 0.000000000001)) [0 ..< 64]"
proof -
  have "0 < h * w" using assms by simp
  then show ?thesis
    unfolding noise_hist_def residual_histogram_def hist_floor_def Let_def
      concat_replicate_replicate
    by (simp only: density_flat map_map comp_def fl_add.simps) (simp cong: if_cong)
qed

lemma noise_entropy_flat:
  assumes "0 < h" and "0 < w"
  shows "noise_entropy (replicate h (replicate w 0))
         = Num (- ((160 + 0.000000000001) * ln (160 + 0.000000000001)
                   + 63 * (0.000000000001 * ln 0.000000000001)))"
proof -
  let ?A = "160 + 0.000000000001 :: real" and ?B = "0.000000000001 :: real"
  have e: "(\<lambda>i. fl_mul (Num (if i = 32 then ?A else ?B)) (fl_map ln (Num (if i = 32 then ?A else ?B))))
           = (\<lambda>i. Num (if i = (32 :: nat) then ?A * ln ?A else ?B * ln ?B))"
    by (rule ext) (simp only: fl_map.simps fl_mul.simps if_distrib [of "\<lambda>x. x * ln x"])
  have "noise_entropy (replicate h (replicate w 0))
        = fl_map uminus (fl_sum (map (\<lambda>i. Num (if i = 32 then ?A * ln ?A else ?B * ln ?B)) [0 ..< 64]))"
    unfolding noise_entropy_def hist_entropy_def Let_def noise_hist_flat [OF assms]
      map_map comp_def
    by (simp only: e)
  then show ?thesis
    by (simp only: fl_sum_Num sum_list_single_32 fl_map.simps)
qed

lemma flat_entropy_negative:
  "- ((160 + 0.000000000001) * ln (160 + 0.000000000001)
      + 63 * (0.000000000001 * ln (0.000000000001 :: real))) < 0"
proof -
  define e :: real where "e = 0.000000000001"
  have e: "0 < e" "e < 1" by (simp_all add: e_def)
  have "exp 1 \<le> (3 :: real)" by (rule exp_le)
  then have "exp 1 \<le> 160 + e" using e by simp
  then have l1: "1 \<le> ln (160 + e)"
    using e by (subst ln_ge_iff) simp_all
  have "160 * 1 \<le> (160 + e) * ln (160 + e)"
    using l1 e by (intro mult_mono) simp_all
  then have a: "160 \<le> (160 + e) * ln (160 + e)" by simp
  have "ln (inverse e) \<le> inverse e - 1"
    using e by (intro ln_le_minus_one) simp
  then have "- ln e \<le> inverse e - 1"
    using e by (simp add: ln_inverse)
  then have "e * (- ln e) \<le> e * (inverse e - 1)"
    using e by (intro mult_left_mono) simp_all
  also have "\<dots> = 1 - e" using e by (simp add: algebra_simps)
  finally have b: "- 1 \<le> e * ln e" using e by simp
  have "0 < (160 + e) * ln (160 + e) + 63 * (e * ln e)"
    using a b by simp
  then show ?thesis
    unfolding e_def by simp
qed

text \<open>
  C3. For a flat image, h by w pixels of one colour, the residual is 0 everywhere, the
  64 values that \<^verbatim>\<open>np.histogram\<close> returns with \<^verbatim>\<open>density=True\<close> add up to 160 (the
  reciprocal of the bin width 0.4 / 64) and not to 1, and the statistic of line 88 is a
  negative number, which the Shannon entropy of a probability distribution never is.
\<close>

theorem flat_image_histogram:
  assumes "0 < h" and "0 < w"
  shows "fl_sum (np_histogram_density (concat (noise_residual (replicate h (replicate w c))))
                   64 (- 0.2) 0.2) = Num 160
         \<and> (\<exists>e. noise_entropy (noise_residual (replicate h (replicate w c))) = Num e \<and> e < 0)"
proof -
  have n: "0 < h * w" using assms by simp
  have t: "sum_list (hist_counts (replicate (h * w) 0) 64 (- 0.2) 0.2) \<noteq> 0"
    using n by (simp only: total_flat)
  have "fl_sum (np_histogram_density (replicate (h * w) 0) 64 (- 0.2) 0.2)
        = Num (real 64 / (0.2 - - 0.2))"
    by (rule density_sum [OF t]) simp_all
  then have "fl_sum (np_histogram_density (replicate (h * w) 0) 64 (- 0.2) 0.2) = Num 160"
    by simp
  then show ?thesis
    unfolding residual_flat [OF assms] concat_replicate_replicate
    using noise_entropy_flat [OF assms] flat_entropy_negative by blast
qed

theorem flat_image_histogram_witness:
  "(0 :: nat) < 64
   \<and> fl_sum (np_histogram_density
         (concat (noise_residual (replicate 64 (replicate 64 (128, 128, 128))))) 64 (- 0.2) 0.2)
       = Num 160
   \<and> (\<exists>e. noise_entropy (noise_residual (replicate 64 (replicate 64 (128, 128, 128)))) = Num e
          \<and> e < 0)"
proof -
  have a: "(0 :: nat) < 64" by simp
  from flat_image_histogram [OF a a, of "(128, 128, 128)"] a show ?thesis by blast
qed

subsection \<open>A residual with no value in the range of the histogram\<close>

lemma bin_edge_bounds:
  assumes "lo \<le> hi" and "i \<le> bins" and "0 < bins"
  shows "lo \<le> bin_edge bins lo hi i" and "bin_edge bins lo hi i \<le> hi"
proof -
  have d: "0 \<le> hi - lo" using assms by simp
  have f: "0 \<le> real i / real bins" "real i / real bins \<le> 1" using assms by simp_all
  have e: "bin_edge bins lo hi i = lo + (real i / real bins) * (hi - lo)"
    by (simp add: bin_edge_def)
  show "lo \<le> bin_edge bins lo hi i"
    unfolding e using d f by simp
  have "(real i / real bins) * (hi - lo) \<le> 1 * (hi - lo)"
    using d f by (intro mult_right_mono) simp_all
  then show "bin_edge bins lo hi i \<le> hi"
    unfolding e by simp
qed

lemma in_bin_range:
  assumes "in_bin bins lo hi i x" and "lo \<le> hi" and "i < bins"
  shows "lo \<le> x \<and> x \<le> hi"
proof -
  have "lo \<le> bin_edge bins lo hi i"
    using assms by (intro bin_edge_bounds) simp_all
  moreover have "bin_edge bins lo hi (i + 1) \<le> hi"
    using assms by (intro bin_edge_bounds) simp_all
  ultimately show ?thesis
    using assms(1) by (auto simp: in_bin_def split: if_splits)
qed

lemma hist_counts_outside:
  assumes "list_all (\<lambda>x. x < lo \<or> hi < x) a" and "lo \<le> hi"
  shows "sum_list (hist_counts a bins lo hi) = 0"
proof -
  have "filter (in_bin bins lo hi i) a = []" if "i < bins" for i
    using assms that in_bin_range [of bins lo hi i]
    by (fastforce simp: filter_empty_conv list_all_iff)
  then show ?thesis
    by (simp add: hist_counts_def)
qed

lemma fl_sum_replicate_NaN: "0 < n \<Longrightarrow> fl_sum (replicate n NaN) = NaN"
  by (cases n) (simp_all add: fl_sum_def)

lemma noise_entropy_NaN:
  assumes "sum_list (hist_counts (concat residual) 64 (- 0.2) 0.2) = 0"
  shows "noise_entropy residual = NaN"
  using assms
  by (simp add: noise_entropy_def noise_hist_def residual_histogram_def hist_floor_def
      hist_entropy_def np_histogram_density_def Let_def fl_sum_replicate_NaN)

lemma noise_score_NaN:
  assumes "sum_list (hist_counts (concat (noise_residual img)) 64 (- 0.2) 0.2) = 0"
  shows "fst (noise_score L img) = NaN"
  using noise_entropy_NaN [OF assms]
  by (simp add: noise_score_def noise_combine_def Let_def)

lemma aggregate_NaN: "forensic_score (aggregate f NaN c s) = NaN"
  by (simp add: aggregate_def Let_def)

lemma aggregate_noise: "noise (aggregate f n c s) = n"
  by (simp add: aggregate_def Let_def)

lemma gray_nan_image: "cvtColor_BGR2GRAY nan_image = [[0, 120, 0], [180, 60, 180]]"
  by (simp add: cvtColor_BGR2GRAY_def nan_image_def gray_of_pixel_def)

lemma unit_gray_nan_image:
  "unit_gray nan_image = [[0, 120 / 255, 0], [180 / 255, 60 / 255, 180 / 255]]"
  by (simp add: unit_gray_def unit_floats_def gray_nan_image astype_float_def)

lemma gray_bytes_nan_image:
  "gray_bytes (unit_gray nan_image) = [[0, 120, 0], [180, 60, 180]]"
  by (simp add: unit_gray_nan_image gray_bytes_def astype_uint8_def uint8_of_real_def)

lemma medianBlur3_nan_image:
  "medianBlur3 [[0, 120, 0], [180, 60, 180]] = [[60, 60, 60], [120, 120, 120]]"
  by (simp add: medianBlur3_def window3_def shape_def clamp_index_def upt_rec)

lemma residual_nan_image:
  "noise_residual nan_image = [[- (4 / 17), 4 / 17, - (4 / 17)], [4 / 17, - (4 / 17), 4 / 17]]"
  unfolding noise_residual_def Let_def gray_bytes_nan_image medianBlur3_nan_image
  by (simp add: unit_gray_nan_image unit_floats_def np_subtract_def astype_float_def)

lemma counts_nan_image:
  "sum_list (hist_counts (concat (noise_residual nan_image)) 64 (- 0.2) 0.2) = 0"
  by (rule hist_counts_outside) (simp_all add: residual_nan_image)

text \<open>
  The frequency, compression and colour scores are always numbers in [0, 1]; the noise
  score is a number in [0, 1] or \<^verbatim>\<open>nan\<close>.
\<close>

lemma np_clip_unit: "unit_score (np_clip (Num x) 0 1)"
  by (simp add: unit_score_def)

lemma np_clip_unit_or_NaN: "np_clip x 0 1 = NaN \<or> unit_score (np_clip x 0 1)"
  by (cases x) (simp_all add: unit_score_def)

lemma scores_in_range:
  "unit_score (fst (frequency_score L img))"
  "compression_score L img = Inr c \<Longrightarrow> unit_score (fst c)"
  "unit_score (color_corr_score img)"
  "fst (noise_score L img) = NaN \<or> unit_score (fst (noise_score L img))"
     apply (simp add: frequency_score_def band_score_def Let_def split_beta np_clip_unit
      del: np_clip.simps)
    apply (auto simp: compression_score_def spread_score_def Let_def np_clip_unit
      unit_score_def split: sum.splits if_splits)[1]
   apply (simp add: color_corr_score_def corr_score_def Let_def np_clip_unit
      del: np_clip.simps)
  apply (simp add: noise_score_def noise_combine_def Let_def np_clip_unit_or_NaN
      del: np_clip.simps)
  done

lemma compression_score_accepted:
  assumes "fst (shape img) \<le> 65500" and "snd (shape img) \<le> 65500"
  shows "\<exists>c. compression_score L img = Inr c"
  by (simp add: compression_score_def jpeg_roundtrip_accepts [OF assms] Let_def)

lemma forensic_analyze_undecoded:
  assumes "imread L p = None"
  shows "run_state (forensic_analyze L p) calls
         = (Inl (ValueError ''Cannot read image for forensic analysis.''), calls @ [Imread])"
  using assms by (simp add: forensic_analyze_def logged_def)

lemma forensic_analyze_raises:
  assumes "imread L p = Some img" and "compression_score L img = Inl e"
  shows "run_state (forensic_analyze L p) calls
         = (Inl e, calls @ [Imread, Frequency_score, Noise_score, Compression_score])"
  using assms by (simp add: forensic_analyze_def logged_def)

lemma forensic_analyze_report:
  assumes "imread L p = Some img" and "compression_score L img = Inr c"
  shows "run_state (forensic_analyze L p) calls
         = (Inr (aggregate (fst (frequency_score L img)) (fst (noise_score L img)) (fst c)
                   (color_corr_score img)),
            calls @ [Imread, Frequency_score, Noise_score, Compression_score, Color_corr_score])"
  using assms by (simp add: forensic_analyze_def logged_def)

lemma shape_nan_image: "shape nan_image = (2, 3)"
  by (simp add: nan_image_def shape_def)

text \<open>
  C2. Every score that \<^verbatim>\<open>forensic_analyze\<close> returns lies in [0, 1] and none is
  \<^verbatim>\<open>nan\<close>. The program breaks this at the image of two rows of three grey pixels 0,
  120, 0 and 180, 60, 180: every residual is 4/17 or -4/17, outside the range
  [-0.2, 0.2] of the histogram, the normalisation of the histogram divides 0 by 0, and
  both the noise score and the forensic score of the report are \<^verbatim>\<open>nan\<close>.
\<close>

theorem nan_image_scores:
  "fst (noise_score L nan_image) = NaN
   \<and> (\<exists>r. fst (run_state (forensic_analyze (L\<lparr>imread := \<lambda>path. Some nan_image\<rparr>) image_path) calls)
             = Inr r
          \<and> noise r = NaN \<and> forensic_score r = NaN)"
proof
  show "fst (noise_score L nan_image) = NaN"
    by (rule noise_score_NaN [OF counts_nan_image])
next
  let ?L = "L\<lparr>imread := \<lambda>path. Some nan_image\<rparr>"
  obtain c where c: "compression_score ?L nan_image = Inr c"
    using compression_score_accepted [of nan_image ?L] by (auto simp: shape_nan_image)
  have i: "imread ?L image_path = Some nan_image" by simp
  have n: "fst (noise_score ?L nan_image) = NaN"
    by (rule noise_score_NaN [OF counts_nan_image])
  show "\<exists>r. fst (run_state (forensic_analyze ?L image_path) calls) = Inr r
          \<and> noise r = NaN \<and> forensic_score r = NaN"
    unfolding forensic_analyze_report [OF i c] n
    by (simp add: aggregate_NaN aggregate_noise)
qed

subsection \<open>The bands of the frequency analyzer\<close>

lemma mask_sum_filter:
  "mask_sum a (map (map P) r)
     = sum_list (map fst (filter (\<lambda>(m, v). P v) (zip (concat a) (concat r))))"
proof -
  have "concat (map (map P) r) = map P (concat r)"
    by (simp add: map_concat)
  moreover have "map fst (filter snd (zip xs (map P ys)))
                 = map fst (filter (\<lambda>(m, v). P v) (zip xs ys))" for xs :: "real list" and ys
    by (induction xs ys rule: list_induct2') simp_all
  ultimately show ?thesis
    by (simp add: mask_sum_def)
qed

lemma radius_nonneg: "v \<in> set (concat (radius_grid h w)) \<Longrightarrow> 0 \<le> v"
  by (auto simp: radius_grid_def Let_def)

lemma np_max_ge: "v \<in> set (concat r) \<Longrightarrow> v \<le> np_max r"
  unfolding np_max_def by (rule Max_ge) simp_all

lemma np_max_radius_nonneg:
  "v \<in> set (concat (radius_grid h w)) \<Longrightarrow> 0 \<le> np_max (radius_grid h w)"
  using radius_nonneg [of v h w] np_max_ge [of v "radius_grid h w"] by simp

lemma band_of_intervals:
  assumes "0 \<le> M"
  shows "(band_of v M = Low \<longleftrightarrow> v \<le> 0.25 * M)"
    and "(band_of v M = Mid \<longleftrightarrow> 0.25 * M < v \<and> v \<le> 0.6 * M)"
    and "(band_of v M = High \<longleftrightarrow> 0.6 * M < v)"
  using assms by (auto simp: band_of_def)

lemma radius_bands:
  assumes "v \<in> set (concat (radius_grid h w))"
  shows "(band_of v (np_max (radius_grid h w)) = Low) = (v \<le> 0.25 * np_max (radius_grid h w))"
    and "(band_of v (np_max (radius_grid h w)) = Mid)
         = (v > 0.25 * np_max (radius_grid h w) \<and> v \<le> 0.6 * np_max (radius_grid h w))"
    and "(band_of v (np_max (radius_grid h w)) = High) = (v > 0.6 * np_max (radius_grid h w))"
  using band_of_intervals [OF np_max_radius_nonneg [OF assms], of v] by simp_all

lemma band_filter:
  assumes "\<And>v. v \<in> set (concat r) \<Longrightarrow> (band_of v (np_max r) = b) = P v"
  shows "filter (\<lambda>(m, v). band_of v (np_max r) = b) (zip (concat a) (concat r))
         = filter (\<lambda>(m, v). P v) (zip (concat a) (concat r))"
proof (rule filter_cong [OF refl])
  fix x assume "x \<in> set (zip (concat a) (concat r))"
  then have "(fst x, snd x) \<in> set (zip (concat a) (concat r))"
    by simp
  then have "snd x \<in> set (concat r)"
    by (rule set_zip_rightD)
  then have "(band_of (snd x) (np_max r) = b) = P (snd x)"
    by (rule assms)
  then show "(case x of (m, v) \<Rightarrow> band_of v (np_max r) = b) = (case x of (m, v) \<Rightarrow> P v)"
    by (simp add: split_beta)
qed

text \<open>The arrays of the analyzer, cell by cell.\<close>

lemma tabulate2_nth: "y < h \<Longrightarrow> x < w \<Longrightarrow> tabulate2 h w f ! y ! x = f y x"
  by (simp add: tabulate2_def)

lemma shape_resized_gray: "shape (resized_gray L img) = (256, 256)"
  by (simp add: resized_gray_def cv2_resize_def shape_tabulate2)

lemma shifted_spectrum_cells:
  "\<exists>c. shifted_spectrum L img = tabulate2 256 256 c"
proof -
  have "shape (np_fft2 L (resized_gray L img)) = (256, 256)"
    by (simp add: np_fft2_def shape_resized_gray shape_tabulate2)
  then show ?thesis
    by (auto simp: shifted_spectrum_def np_fftshift_def)
qed

lemma log_spectrum_cells:
  "np_log1p (np_abs_complex (tabulate2 h w c)) = tabulate2 h w (\<lambda>y x. ln (1 + cmod (c y x)))"
  by (simp add: np_log1p_def np_abs_complex_def tabulate2_def)

lemma radius_grid_cells: "radius_grid h w = tabulate2 h w (spec_radius h w)"
  by (simp add: radius_grid_def tabulate2_def spec_radius_def Let_def)

lemma spec_cells_tabulate2:
  assumes "0 < h"
  shows "spec_cells (tabulate2 h w c)
         = concat (tabulate2 h w (\<lambda>y x. (spec_radius h w y x, ln (1 + cmod (c y x)))))"
proof -
  have s: "shape (tabulate2 h w c) = (h, w)"
    using assms by (simp add: shape_tabulate2)
  have "map (\<lambda>y. map (\<lambda>x. (spec_radius h w y x, ln (1 + cmod (tabulate2 h w c ! y ! x))))
                      [0 ..< w]) [0 ..< h]
        = map (\<lambda>y. map (\<lambda>x. (spec_radius h w y x, ln (1 + cmod (c y x)))) [0 ..< w]) [0 ..< h]"
  proof (rule map_cong [OF refl], rule map_cong [OF refl])
    fix y x assume "y \<in> set [0 ..< h]" and "x \<in> set [0 ..< w]"
    then show "(spec_radius h w y x, ln (1 + cmod (tabulate2 h w c ! y ! x)))
               = (spec_radius h w y x, ln (1 + cmod (c y x)))"
      by (simp add: tabulate2_nth)
  qed
  then show ?thesis
    unfolding spec_cells_def s Let_def split_conv
    by (simp only: tabulate2_def)
qed

lemma zip_map_same: "zip (map f xs) (map g xs) = map (\<lambda>x. (f x, g x)) xs"
  by (induction xs) simp_all

lemma zip_concat_rows:
  "zip (concat (map (\<lambda>y. map (f y) xs) ys)) (concat (map (\<lambda>y. map (g y) xs) ys))
     = concat (map (\<lambda>y. map (\<lambda>x. (f y x, g y x)) xs) ys)"
  by (induction ys) (simp_all add: zip_map_same)

lemma zip_concat_tabulate2:
  "zip (concat (tabulate2 h w f)) (concat (tabulate2 h w g))
     = concat (tabulate2 h w (\<lambda>y x. (f y x, g y x)))"
  unfolding tabulate2_def by (rule zip_concat_rows)

lemma map_concat_tabulate2:
  "map k (concat (tabulate2 h w f)) = concat (tabulate2 h w (\<lambda>y x. k (f y x)))"
  by (simp add: tabulate2_def map_concat comp_def)

lemma swapped_filter:
  "map snd (filter (\<lambda>(r, m). Q r) (map (\<lambda>(m, v). (v, m)) ps))
     = map fst (filter (\<lambda>(m, v). Q v) ps)"
  by (induction ps) (simp_all add: split_beta)

text \<open>
  The energy of a band in the words of the specification is the masked sum of the
  analyzer over the total, when the cells of the specification are the cells of the two
  arrays of the analyzer and the mask is the band.
\<close>

lemma spec_band_energy_mask:
  assumes cs: "cs = map (\<lambda>(m, v). (v, m)) (zip (concat mag) (concat r))"
    and len: "length (concat mag) = length (concat r)"
    and band: "\<And>v. v \<in> set (concat r) \<Longrightarrow> (band_of v (np_max r) = b) = P v"
  shows "spec_band_energy b cs
         = mask_sum mag (map (map P) r) / (sum_list (concat mag) + 0.00000001)"
proof -
  have f: "map fst cs = concat r"
    using len by (simp add: cs split_beta comp_def map_snd_zip [unfolded comp_def])
  have s: "map snd cs = concat mag"
    using len by (simp add: cs split_beta comp_def map_fst_zip [unfolded comp_def])
  have m: "Max (set (map fst cs)) = np_max r"
    by (simp only: f np_max_def)
  have "map snd (filter (\<lambda>(r', m). band_of r' (np_max r) = b) cs)
        = map fst (filter (\<lambda>(m, v). band_of v (np_max r) = b) (zip (concat mag) (concat r)))"
    unfolding cs by (rule swapped_filter)
  also have "\<dots> = map fst (filter (\<lambda>(m, v). P v) (zip (concat mag) (concat r)))"
    by (simp only: band_filter [of r b P, OF band])
  finally show ?thesis
    unfolding spec_band_energy_def Let_def m s mask_sum_filter by simp
qed

lemma length_concat_tabulate2:
  "length (concat (tabulate2 h w f)) = length (concat (tabulate2 h w g))"
proof -
  have "map (\<lambda>v. ()) (concat (tabulate2 h w f)) = map (\<lambda>v. ()) (concat (tabulate2 h w g))"
    by (simp only: map_concat_tabulate2)
  then have "length (map (\<lambda>v. ()) (concat (tabulate2 h w f)))
             = length (map (\<lambda>v. ()) (concat (tabulate2 h w g)))"
    by (rule arg_cong)
  then show ?thesis by (simp only: length_map)
qed

lemma band_score_spec:
  assumes "0 < h"
  shows "band_score (np_log1p (np_abs_complex (tabulate2 h w c)))
           (low_band (radius_grid h w) (np_max (radius_grid h w)))
           (mid_band (radius_grid h w) (np_max (radius_grid h w)))
           (high_band (radius_grid h w) (np_max (radius_grid h w)))
         = Num (spec_frequency_score (tabulate2 h w c))"
proof -
  let ?mag = "np_log1p (np_abs_complex (tabulate2 h w c))"
  let ?r = "radius_grid h w"
  let ?cs = "spec_cells (tabulate2 h w c)"
  have mag: "?mag = tabulate2 h w (\<lambda>y x. ln (1 + cmod (c y x)))"
    by (rule log_spectrum_cells)
  have r: "?r = tabulate2 h w (spec_radius h w)"
    by (rule radius_grid_cells)
  have len: "length (concat ?mag) = length (concat ?r)"
    unfolding mag r by (rule length_concat_tabulate2)
  have cs: "?cs = map (\<lambda>(m, v). (v, m)) (zip (concat ?mag) (concat ?r))"
    unfolding mag r spec_cells_tabulate2 [OF assms] zip_concat_tabulate2 map_concat_tabulate2
    by (simp only: split_conv)
  have low: "spec_band_energy Low ?cs
             = mask_sum ?mag (map (map (\<lambda>v. v \<le> 0.25 * np_max ?r)) ?r)
               / (sum_list (concat ?mag) + 0.00000001)"
    by (rule spec_band_energy_mask [OF cs len]) (rule radius_bands)
  have mid: "spec_band_energy Mid ?cs
             = mask_sum ?mag (map (map (\<lambda>v. v > 0.25 * np_max ?r \<and> v \<le> 0.6 * np_max ?r)) ?r)
               / (sum_list (concat ?mag) + 0.00000001)"
    by (rule spec_band_energy_mask [OF cs len]) (rule radius_bands)
  have high: "spec_band_energy High ?cs
             = mask_sum ?mag (map (map (\<lambda>v. v > 0.6 * np_max ?r)) ?r)
               / (sum_list (concat ?mag) + 0.00000001)"
    by (rule spec_band_energy_mask [OF cs len]) (rule radius_bands)
  show ?thesis
    unfolding band_score_def low_band_def mid_band_def high_band_def
      spec_frequency_score_def Let_def low mid high
    by (simp add: np_clip_spec_clip mult.commute del: np_clip.simps)
qed

lemma spec_cells_radius:
  assumes "p \<in> set (spec_cells S)"
  shows "0 \<le> fst p" and "fst p \<le> Max (set (map fst (spec_cells S)))"
proof -
  show "0 \<le> fst p"
    using assms by (auto simp: spec_cells_def spec_radius_def split_beta)
  have "fst p \<in> set (map fst (spec_cells S))"
    using assms by simp
  then show "fst p \<le> Max (set (map fst (spec_cells S)))"
    by (intro Max_ge) simp_all
qed

text \<open>
  C4. The frequency score is the score of the specification for the shifted spectrum:
  every cell has the radius of its distance from the centre cell and the log-magnitude
  log (1 + x) of its value, the cells fall into three bands by radius (low up to 0.25
  of the largest radius, mid above that and up to 0.6 of it, high above 0.6 of it), the
  energy of a band is its sum over the total plus epsilon, balance is
  (mid + high) / (low + epsilon), and the score is
  clip (0.7 high + 0.3 balance / (balance + 1), 0, 1). On the cells of every spectrum
  the three bands are exactly the three intervals.
\<close>

theorem frequency_score_bands:
  "fst (frequency_score L img) = Num (spec_frequency_score (shifted_spectrum L img))
   \<and> list_all (\<lambda>(r, m).
         (band_of r (Max (set (map fst (spec_cells S)))) = Low)
           = (r \<le> 0.25 * Max (set (map fst (spec_cells S))))
         \<and> (band_of r (Max (set (map fst (spec_cells S)))) = Mid)
           = (0.25 * Max (set (map fst (spec_cells S))) < r
              \<and> r \<le> 0.6 * Max (set (map fst (spec_cells S))))
         \<and> (band_of r (Max (set (map fst (spec_cells S)))) = High)
           = (0.6 * Max (set (map fst (spec_cells S))) < r))
       (spec_cells S)"
proof
  obtain c where c: "shifted_spectrum L img = tabulate2 256 256 c"
    using shifted_spectrum_cells by blast
  have pos: "(0 :: nat) < 256" by simp
  show "fst (frequency_score L img) = Num (spec_frequency_score (shifted_spectrum L img))"
    unfolding frequency_score_def log_spectrum_def Let_def shape_resized_gray split_conv
      fst_conv c
    by (rule band_score_spec [OF pos])
next
  have "(band_of (fst p) (Max (set (map fst (spec_cells S)))) = Low)
           = (fst p \<le> 0.25 * Max (set (map fst (spec_cells S))))
         \<and> (band_of (fst p) (Max (set (map fst (spec_cells S)))) = Mid)
           = (0.25 * Max (set (map fst (spec_cells S))) < fst p
              \<and> fst p \<le> 0.6 * Max (set (map fst (spec_cells S))))
         \<and> (band_of (fst p) (Max (set (map fst (spec_cells S)))) = High)
           = (0.6 * Max (set (map fst (spec_cells S))) < fst p)"
    if "p \<in> set (spec_cells S)" for p
  proof -
    have "0 \<le> Max (set (map fst (spec_cells S)))"
      using spec_cells_radius [OF that] by simp
    then show ?thesis
      using band_of_intervals [of "Max (set (map fst (spec_cells S)))" "fst p"] by simp
  qed
  then show "list_all (\<lambda>(r, m).
         (band_of r (Max (set (map fst (spec_cells S)))) = Low)
           = (r \<le> 0.25 * Max (set (map fst (spec_cells S))))
         \<and> (band_of r (Max (set (map fst (spec_cells S)))) = Mid)
           = (0.25 * Max (set (map fst (spec_cells S))) < r
              \<and> r \<le> 0.6 * Max (set (map fst (spec_cells S))))
         \<and> (band_of r (Max (set (map fst (spec_cells S)))) = High)
           = (0.6 * Max (set (map fst (spec_cells S))) < r))
       (spec_cells S)"
    unfolding list_all_iff by (auto simp: split_beta)
qed

subsection \<open>The combined analyzer\<close>

text \<open>
  C7, as amended. When the file does not decode, \<^verbatim>\<open>forensic_analyze\<close> raises the
  decode error after the call of \<^verbatim>\<open>imread\<close> alone, before any analyzer is called, and
  returns no report; when the file decodes to an image that the JPEG encoder accepts,
  at most 65500 rows and columns, it calls the four analyzers and returns a report,
  not an error.
\<close>

theorem decode_error_fails_fast:
  "(imread L p = None \<longrightarrow>
      run_state (forensic_analyze L p) []
        = (Inl (ValueError ''Cannot read image for forensic analysis.''), [Imread]))
   \<and> (imread L p = Some img \<and> fst (shape img) \<le> 65500 \<and> snd (shape img) \<le> 65500 \<longrightarrow>
      (\<exists>r. run_state (forensic_analyze L p) []
             = (Inr r, [Imread, Frequency_score, Noise_score, Compression_score,
                        Color_corr_score])))"
proof (intro conjI impI)
  assume "imread L p = None"
  then show "run_state (forensic_analyze L p) []
        = (Inl (ValueError ''Cannot read image for forensic analysis.''), [Imread])"
    using forensic_analyze_undecoded [of L p "[]"] by simp
next
  assume a: "imread L p = Some img \<and> fst (shape img) \<le> 65500 \<and> snd (shape img) \<le> 65500"
  then obtain c where c: "compression_score L img = Inr c"
    using compression_score_accepted [of img L] by auto
  from a have i: "imread L p = Some img" by simp
  show "\<exists>r. run_state (forensic_analyze L p) []
             = (Inr r, [Imread, Frequency_score, Noise_score, Compression_score,
                        Color_corr_score])"
    using forensic_analyze_report [OF i c, of "[]"] by simp
qed

theorem decode_error_fails_fast_witness:
  "imread lossless_lib ''missing.png'' = None
   \<and> run_state (forensic_analyze lossless_lib ''missing.png'') []
       = (Inl (ValueError ''Cannot read image for forensic analysis.''), [Imread])
   \<and> imread (lossless_lib\<lparr>imread := \<lambda>path. Some nan_image\<rparr>) ''a.png'' = Some nan_image
   \<and> fst (shape nan_image) \<le> 65500 \<and> snd (shape nan_image) \<le> 65500
   \<and> (\<exists>r. run_state (forensic_analyze (lossless_lib\<lparr>imread := \<lambda>path. Some nan_image\<rparr>) ''a.png'') []
             = (Inr r, [Imread, Frequency_score, Noise_score, Compression_score,
                        Color_corr_score]))"
proof -
  have a: "imread lossless_lib ''missing.png'' = None"
    by (simp add: lossless_lib_def)
  have b: "imread (lossless_lib\<lparr>imread := \<lambda>path. Some nan_image\<rparr>) ''a.png'' = Some nan_image
           \<and> fst (shape nan_image) \<le> 65500 \<and> snd (shape nan_image) \<le> 65500"
    by (simp add: shape_nan_image)
  have c: "run_state (forensic_analyze lossless_lib ''missing.png'') []
       = (Inl (ValueError ''Cannot read image for forensic analysis.''), [Imread])"
    by (rule decode_error_fails_fast [THEN conjunct1, THEN mp, OF a])
  have d: "\<exists>r. run_state (forensic_analyze (lossless_lib\<lparr>imread := \<lambda>path. Some nan_image\<rparr>) ''a.png'') []
             = (Inr r, [Imread, Frequency_score, Noise_score, Compression_score,
                        Color_corr_score])"
    by (rule decode_error_fails_fast [THEN conjunct2, THEN mp, OF b])
  from a c b d show ?thesis by (intro conjI) simp_all
qed

text \<open>
  The claim C7 as it was stated, no error for every decoded image, fails at a file that
  decodes to the image of one row of 65501 pixels: the frequency and noise analyzers
  run, the compression analyzer raises, and no report is returned.
\<close>

theorem wide_image_analysis_raises:
  "imread wide_lib ''wide.png'' = Some wide_image
   \<and> run_state (forensic_analyze wide_lib ''wide.png'') []
       = (Inl Cv2Error, [Imread, Frequency_score, Noise_score, Compression_score])"
proof -
  have i: "imread wide_lib ''wide.png'' = Some wide_image"
    by (simp add: wide_lib_def)
  have c: "compression_score wide_lib wide_image = Inl Cv2Error"
    by (rule compression_score_refused) (simp add: shape_wide_image)
  from i forensic_analyze_raises [OF i c, of "[]"] show ?thesis by simp
qed

subsection \<open>The analyzers on the store\<close>

lemma used_put: "used (put s x) = Suc (used s)"
  by (simp add: put_def)

lemma cells_put: "cells (put s x) a = (if a = used s then Some x else cells s a)"
  by (simp add: put_def)

lemma run_new: "run_state (new v) s = (used s, put s (v s))"
  by (simp add: new_def)

lemma run_read: "run_state (read f) s = (f s, s)"
  by (simp add: read_def)

lemmas at_defs = bgr_at_def bytes_at_def floats_at_def complexes_at_def bools_at_def
  floats1_at_def vector_at_def

lemma post_new_bind:
  assumes "\<And>s'. used s' = Suc (used s) \<Longrightarrow> cells s' (used s) = Some (v s)
             \<Longrightarrow> (\<forall>b < used s. cells s' b = cells s b) \<Longrightarrow> post (f (used s)) s' Q"
  shows "post (State_Monad.bind (new v) f) s Q"
proof -
  have "post (f (used s)) (put s (v s)) Q"
    by (rule assms) (simp_all add: used_put cells_put)
  then show ?thesis
    by (simp add: post_def run_new)
qed

lemma post_read_bind:
  assumes "post (f (g s)) s Q"
  shows "post (State_Monad.bind (read g) f) s Q"
  using assms by (simp add: post_def run_read)

lemma post_return: "Q x s \<Longrightarrow> post (State_Monad.return x) s Q"
  by (simp add: post_def)

lemma post_if:
  assumes "c \<Longrightarrow> post m s Q" and "\<not> c \<Longrightarrow> post n s Q"
  shows "post (if c then m else n) s Q"
  using assms by simp

lemma post_bind:
  assumes "post m s R" and "\<And>a s'. R a s' \<Longrightarrow> post (f a) s' Q"
  shows "post (State_Monad.bind m f) s Q"
  using assms by (simp add: post_def split_beta)

lemma frequency_score_st_post:
  assumes "image_ref < used s"
  shows "post (frequency_score_st L image_ref) s
           (\<lambda>res s'. fst res = fst (frequency_score L (bgr_at s image_ref))
                     \<and> floats_at s' (snd res) = snd (frequency_score L (bgr_at s image_ref))
                     \<and> extends s s')"
  unfolding frequency_score_st_def
  apply (rule post_new_bind post_read_bind post_return)+
  using assms
  apply (simp add: at_defs extends_def frequency_score_def resized_gray_def log_spectrum_def
      shifted_spectrum_def Let_def split_beta)
  done

lemma noise_score_st_post:
  assumes "image_ref < used s"
  shows "post (noise_score_st L image_ref) s
           (\<lambda>res s'. fst res = fst (noise_score L (bgr_at s image_ref))
                     \<and> floats_at s' (snd res) = snd (noise_score L (bgr_at s image_ref))
                     \<and> extends s s')"
  unfolding noise_score_st_def
  apply (rule post_new_bind post_read_bind post_return)+
  using assms
  apply (simp add: at_defs extends_def noise_score_def noise_residual_def noise_entropy_def
      noise_hist_def Let_def split_beta)
  done

lemma compression_score_st_post:
  assumes "image_ref < used s"
  shows "post (compression_score_st L image_ref) s
           (\<lambda>res s'. (case res of
                          Inl e \<Rightarrow> compression_score L (bgr_at s image_ref) = Inl e
                        | Inr c \<Rightarrow> compression_score L (bgr_at s image_ref)
                                     = Inr (fst c, floats_at s' (snd c)))
                     \<and> extends s s')"
proof (cases "jpeg_roundtrip L (bgr_at s image_ref)")
  case (Inl e)
  show ?thesis
    unfolding compression_score_st_def
    apply (rule post_read_bind)
    apply (simp only: Inl sum.case)
    apply (rule post_return)
    apply (simp add: compression_score_def Inl extends_def)
    done
next
  case (Inr d)
  show ?thesis
    unfolding compression_score_st_def
    apply (rule post_read_bind)
    apply (simp only: Inr sum.case)
    apply (intro post_new_bind post_read_bind post_return post_if)
    using assms
     apply (simp_all add: at_defs extends_def compression_score_def error_map_def
        Inr [unfolded bgr_at_def] Let_def split_beta)
    done
qed

lemma color_corr_score_st_post:
  assumes "image_ref < used s"
  shows "post (color_corr_score_st image_ref) s
           (\<lambda>res s'. res = color_corr_score (bgr_at s image_ref) \<and> extends s s')"
  unfolding color_corr_score_st_def
  apply (rule post_new_bind post_read_bind post_return)+
  using assms
  apply (simp add: at_defs extends_def color_corr_score_def Let_def split_beta)
  done

lemma extends_trans: "extends s s' \<Longrightarrow> extends s' s'' \<Longrightarrow> extends s s''"
  by (auto simp: extends_def)

lemma extends_bgr_at: "extends s s' \<Longrightarrow> a < used s \<Longrightarrow> bgr_at s' a = bgr_at s a"
  by (simp add: extends_def bgr_at_def)

lemma extends_used: "extends s s' \<Longrightarrow> a < used s \<Longrightarrow> a < used s'"
  by (simp add: extends_def)

text \<open>
  C9. When the analyzers have run one after the other on the image at an address of the
  store, the cell of the image, and every other cell that was in use before, holds what
  it held before: the analyzers only add cells. This holds when the four analyzers
  return and when the compression analyzer raises. Each score is the score that the
  analyzer, as a function, gives for the pixels of the image.
\<close>

theorem analyzers_leave_image_unchanged:
  assumes "image_ref < used s"
  shows "post (run_analyzers L image_ref) s
           (\<lambda>res s'. res = (case compression_score L (bgr_at s image_ref) of
                               Inl e \<Rightarrow> Inl e
                             | Inr c \<Rightarrow>
                                 Inr (fst (frequency_score L (bgr_at s image_ref)),
                                      fst (noise_score L (bgr_at s image_ref)),
                                      fst c,
                                      color_corr_score (bgr_at s image_ref)))
                     \<and> cells s' image_ref = cells s image_ref
                     \<and> (\<forall>a < used s. cells s' a = cells s a))"
  unfolding run_analyzers_def
proof (rule post_bind [OF frequency_score_st_post [OF assms]])
  fix freq s1
  assume 1: "fst freq = fst (frequency_score L (bgr_at s image_ref))
             \<and> floats_at s1 (snd freq) = snd (frequency_score L (bgr_at s image_ref))
             \<and> extends s s1"
  then have e1: "extends s s1" by simp
  have i1: "image_ref < used s1" using e1 assms by (rule extends_used)
  have b1: "bgr_at s1 image_ref = bgr_at s image_ref" using e1 assms by (rule extends_bgr_at)
  show "post (do {
          nois \<leftarrow> noise_score_st L image_ref;
          comp \<leftarrow> compression_score_st L image_ref;
          case comp of
            Inl e \<Rightarrow> State_Monad.return (Inl e)
          | Inr c \<Rightarrow> do {
              color_s \<leftarrow> color_corr_score_st image_ref;
              State_Monad.return (Inr (fst freq, fst nois, fst c, color_s))
            }
        }) s1
        (\<lambda>res s'. res = (case compression_score L (bgr_at s image_ref) of
                               Inl e \<Rightarrow> Inl e
                             | Inr c \<Rightarrow>
                                 Inr (fst (frequency_score L (bgr_at s image_ref)),
                                      fst (noise_score L (bgr_at s image_ref)),
                                      fst c,
                                      color_corr_score (bgr_at s image_ref)))
                     \<and> cells s' image_ref = cells s image_ref
                     \<and> (\<forall>a < used s. cells s' a = cells s a))"
  proof (rule post_bind [OF noise_score_st_post [OF i1]])
    fix nois s2
    assume 2: "fst nois = fst (noise_score L (bgr_at s1 image_ref))
               \<and> floats_at s2 (snd nois) = snd (noise_score L (bgr_at s1 image_ref))
               \<and> extends s1 s2"
    then have e2: "extends s s2" using e1 by (blast intro: extends_trans)
    have i2: "image_ref < used s2" using e2 assms by (rule extends_used)
    have b2: "bgr_at s2 image_ref = bgr_at s image_ref" using e2 assms by (rule extends_bgr_at)
    show "post (do {
            comp \<leftarrow> compression_score_st L image_ref;
            case comp of
              Inl e \<Rightarrow> State_Monad.return (Inl e)
            | Inr c \<Rightarrow> do {
                color_s \<leftarrow> color_corr_score_st image_ref;
                State_Monad.return (Inr (fst freq, fst nois, fst c, color_s))
              }
          }) s2
          (\<lambda>res s'. res = (case compression_score L (bgr_at s image_ref) of
                               Inl e \<Rightarrow> Inl e
                             | Inr c \<Rightarrow>
                                 Inr (fst (frequency_score L (bgr_at s image_ref)),
                                      fst (noise_score L (bgr_at s image_ref)),
                                      fst c,
                                      color_corr_score (bgr_at s image_ref)))
                     \<and> cells s' image_ref = cells s image_ref
                     \<and> (\<forall>a < used s. cells s' a = cells s a))"
    proof (rule post_bind [OF compression_score_st_post [OF i2]])
      fix comp s3
      assume 3: "(case comp of
                    Inl e \<Rightarrow> compression_score L (bgr_at s2 image_ref) = Inl e
                  | Inr c \<Rightarrow> compression_score L (bgr_at s2 image_ref)
                               = Inr (fst c, floats_at s3 (snd c)))
                 \<and> extends s2 s3"
      then have e3: "extends s s3" using e2 by (blast intro: extends_trans)
      have i3: "image_ref < used s3" using e3 assms by (rule extends_used)
      have b3: "bgr_at s3 image_ref = bgr_at s image_ref" using e3 assms by (rule extends_bgr_at)
      have f3: "\<forall>a < used s. cells s3 a = cells s a"
        using e3 by (simp add: extends_def)
      show "post (case comp of
                    Inl e \<Rightarrow> State_Monad.return (Inl e)
                  | Inr c \<Rightarrow> do {
                      color_s \<leftarrow> color_corr_score_st image_ref;
                      State_Monad.return (Inr (fst freq, fst nois, fst c, color_s))
                    }) s3
            (\<lambda>res s'. res = (case compression_score L (bgr_at s image_ref) of
                               Inl e \<Rightarrow> Inl e
                             | Inr c \<Rightarrow>
                                 Inr (fst (frequency_score L (bgr_at s image_ref)),
                                      fst (noise_score L (bgr_at s image_ref)),
                                      fst c,
                                      color_corr_score (bgr_at s image_ref)))
                     \<and> cells s' image_ref = cells s image_ref
                     \<and> (\<forall>a < used s. cells s' a = cells s a))"
      proof (cases comp)
        case (Inl e)
        then have c: "compression_score L (bgr_at s image_ref) = Inl e"
          using 3 b2 by simp
        show ?thesis
          unfolding Inl sum.case
          using c f3 assms by (intro post_return) simp
      next
        case (Inr c)
        then have c: "compression_score L (bgr_at s image_ref)
                      = Inr (fst c, floats_at s3 (snd c))"
          using 3 b2 by simp
        show ?thesis
          unfolding Inr sum.case
        proof (rule post_bind [OF color_corr_score_st_post [OF i3]])
          fix color_s s4
          assume 4: "color_s = color_corr_score (bgr_at s3 image_ref) \<and> extends s3 s4"
          then have e4: "extends s s4" using e3 by (blast intro: extends_trans)
          then have f: "\<forall>a < used s. cells s4 a = cells s a"
            by (simp add: extends_def)
          show "post (State_Monad.return (Inr (fst freq, fst nois, fst c, color_s))) s4
              (\<lambda>res s'. res = (case compression_score L (bgr_at s image_ref) of
                               Inl e \<Rightarrow> Inl e
                             | Inr c \<Rightarrow>
                                 Inr (fst (frequency_score L (bgr_at s image_ref)),
                                      fst (noise_score L (bgr_at s image_ref)),
                                      fst c,
                                      color_corr_score (bgr_at s image_ref)))
                     \<and> cells s' image_ref = cells s image_ref
                     \<and> (\<forall>a < used s. cells s' a = cells s a))"
            using 1 2 4 b1 b2 b3 c f assms by (intro post_return) simp
        qed
      qed
    qed
  qed
qed

theorem analyzers_leave_image_unchanged_witness:
  "(0 :: nat) < used \<lparr>cells = (\<lambda>a. None)(0 := Some (Bgr nan_image)), used = 1\<rparr>
   \<and> post (run_analyzers lossless_lib 0)
        \<lparr>cells = (\<lambda>a. None)(0 := Some (Bgr nan_image)), used = 1\<rparr>
        (\<lambda>res s'.
           res = (case compression_score lossless_lib
                        (bgr_at \<lparr>cells = (\<lambda>a. None)(0 := Some (Bgr nan_image)), used = 1\<rparr> 0) of
                    Inl e \<Rightarrow> Inl e
                  | Inr c \<Rightarrow>
                      Inr (fst (frequency_score lossless_lib
                            (bgr_at \<lparr>cells = (\<lambda>a. None)(0 := Some (Bgr nan_image)), used = 1\<rparr> 0)),
                           fst (noise_score lossless_lib
                            (bgr_at \<lparr>cells = (\<lambda>a. None)(0 := Some (Bgr nan_image)), used = 1\<rparr> 0)),
                           fst c,
                           color_corr_score
                            (bgr_at \<lparr>cells = (\<lambda>a. None)(0 := Some (Bgr nan_image)), used = 1\<rparr> 0)))
           \<and> cells s' 0 = cells \<lparr>cells = (\<lambda>a. None)(0 := Some (Bgr nan_image)), used = 1\<rparr> 0
           \<and> (\<forall>a < used \<lparr>cells = (\<lambda>a. None)(0 := Some (Bgr nan_image)), used = 1\<rparr>.
                 cells s' a = cells \<lparr>cells = (\<lambda>a. None)(0 := Some (Bgr nan_image)), used = 1\<rparr> a))"
proof -
  have a: "(0 :: nat) < used \<lparr>cells = (\<lambda>a. None)(0 := Some (Bgr nan_image)), used = 1\<rparr>"
    by simp
  from a analyzers_leave_image_unchanged [OF a, of lossless_lib] show ?thesis
    by (rule conjI)
qed

end
